theory Spec2Isabelle
  imports Complex_Main "HOL-Library.Word" "HOL-Library.AList"
begin

unbundle bit_operations_syntax

section \<open>The fishtest worker (worker/worker.py)\<close>

text \<open>
  A shallow embedding of the parts of \<^verbatim>\<open>worker.py\<close> that decide the worker's
  concurrency option, its integrity manifests, its heartbeat, the handling of one task
  and the main loop. Python exceptions are values of the type \<open>error\<close>; what the code
  reads from its environment (the parser's result, the clock, the dispatcher's replies,
  the files on disk) is an argument of the function that reads it.
\<close>

subsection \<open>Constants\<close>

definition WORKER_VERSION :: int where
  "WORKER_VERSION = 286"

definition FILE_LIST :: "string list" where
  "FILE_LIST = [''updater.py'', ''worker.py'', ''games.py'']"

text \<open>
  \<^verbatim>\<open>INITIAL_RETRY_TIME = 15.0\<close> and \<^verbatim>\<open>MAX_RETRY_TIME = 900.0\<close> are floats in the
  source. The only operations on the delay are doubling and \<^verbatim>\<open>min\<close> with 900.0, so
  every value it takes is an integer below 1800 and the float arithmetic is exact;
  the delay is modelled as an integer number of seconds.
\<close>

definition INITIAL_RETRY_TIME :: int where
  "INITIAL_RETRY_TIME = 15"

definition MAX_RETRY_TIME :: int where
  "MAX_RETRY_TIME = 900"

subsection \<open>Exceptions and strings\<close>

datatype error = ValueError | TypeError | AttributeError | KeyError | OSError

text \<open>Python's \<^verbatim>\<open>sub in s\<close> on strings.\<close>

primrec contains :: "string \<Rightarrow> string \<Rightarrow> bool" where
  "contains sub [] = (sub = [])"
| "contains sub (c # cs) = (take (length sub) (c # cs) = sub \<or> contains sub cs)"

subsection \<open>The concurrency option: class \<^verbatim>\<open>_concurrency\<close>\<close>

text \<open>
  \<^verbatim>\<open>Expression_Parser\<close> comes from the package \<^verbatim>\<open>expression\<close>; what
  \<^verbatim>\<open>e.parse(x)\<close> gives for the expression \<open>x\<close> and the variable \<^verbatim>\<open>MAX\<close> is an
  argument of the model: the parser raises, or returns an integer, or a finite float
  (a real number), or something \<^verbatim>\<open>round\<close> raises on (an infinity, a NaN, a
  value that is no number).
\<close>

datatype parse_result = Raises | IntValue int | FloatValue real | Unroundable

text \<open>Python's \<^verbatim>\<open>round\<close> of a float: to the nearest integer, a tie to the even one.\<close>

definition round_half_even :: "real \<Rightarrow> int" where
  "round_half_even q =
     (let f = \<lfloor>q\<rfloor>; d = q - of_int f
      in if d < 1 / 2 then f
         else if 1 / 2 < d then f + 1
         else if even f then f else f + 1)"

text \<open>\<^verbatim>\<open>round(e.parse(x))\<close> inside the \<^verbatim>\<open>try\<close>: \<open>None\<close> when either call raises.\<close>

fun parse_round :: "parse_result \<Rightarrow> int option" where
  "parse_round Raises = None"
| "parse_round (IntValue i) = Some i"
| "parse_round (FloatValue q) = Some (round_half_even q)"
| "parse_round Unroundable = None"

text \<open>
  \<^verbatim>\<open>_concurrency(MAX).__call__(x)\<close>; \<open>maxv\<close> is the field \<^verbatim>\<open>self.MAX\<close> and \<open>parsed\<close>
  what \<^verbatim>\<open>e.parse(x)\<close> does.
\<close>

definition concurrency :: "int \<Rightarrow> string \<Rightarrow> parse_result \<Rightarrow> error + (string \<times> int)" where
  "concurrency maxv x parsed =
     (case parse_round parsed of
        None \<Rightarrow> Inl ValueError
      | Some ret \<Rightarrow>
          if ret \<le> 0 then Inl ValueError
          else if (\<not> contains ''MAX'' x \<and> ret \<ge> maxv) \<or> ret > maxv then Inl ValueError
          else Inr (x, ret))"

text \<open>
  The clamp as the specification words it: invalid when \<open>v \<le> 0\<close> or \<open>v > MAX\<close>, else
  \<open>v\<close> if the expression contains "MAX" and \<open>v \<le> MAX\<close>, else \<open>min(v, MAX-1)\<close>.
\<close>

definition spec_concurrency :: "int \<Rightarrow> string \<Rightarrow> int \<Rightarrow> int option" where
  "spec_concurrency maxv x v =
     (if v \<le> 0 \<or> v > maxv then None
      else if contains ''MAX'' x \<and> v \<le> maxv then Some v
      else Some (min v (maxv - 1)))"

subsection \<open>JSON values and Python dictionaries\<close>

text \<open>
  What \<^verbatim>\<open>json.load\<close> returns. A number is an integer or a float, and Python compares
  the two by value, so both are real numbers here. A dictionary is the list of its
  items in insertion order, each key once; \<open>map_of\<close> is the lookup, \<open>AList.update\<close>
  the assignment \<^verbatim>\<open>d[k] = v\<close>.
\<close>

datatype json =
    JNull
  | JBool bool
  | JNum real
  | JStr string
  | JList "json list"
  | JObj "(string \<times> json) list"

type_synonym dict = "(string \<times> json) list"

text \<open>Python's truth value of a JSON value (\<^verbatim>\<open>not x\<close> is its negation).\<close>

fun truthy :: "json \<Rightarrow> bool" where
  "truthy JNull = False"
| "truthy (JBool b) = b"
| "truthy (JNum n) = (n \<noteq> 0)"
| "truthy (JStr s) = (s \<noteq> [])"
| "truthy (JList l) = (l \<noteq> [])"
| "truthy (JObj d) = (d \<noteq> [])"

subsection \<open>Integrity manifests: \<^verbatim>\<open>generate_sri\<close>, \<^verbatim>\<open>verify_sri\<close>, \<^verbatim>\<open>verify_remote_sri\<close>\<close>

text \<open>
  \<^verbatim>\<open>text_hash\<close> is imported from \<^verbatim>\<open>games.py\<close>; it is an argument here, a function from
  the name of a file of the install directory to its hash, \<open>None\<close> when it raises
  (a missing or unreadable file).
\<close>

type_synonym hasher = "string \<Rightarrow> string option"

text \<open>The loop of \<^verbatim>\<open>generate_sri\<close>: \<open>None\<close> at the first file whose hash raises.\<close>

fun hash_files :: "hasher \<Rightarrow> string list \<Rightarrow> dict \<Rightarrow> dict option" where
  "hash_files text_hash [] sri = Some sri"
| "hash_files text_hash (file # files) sri =
     (case text_hash file of
        None \<Rightarrow> None
      | Some h \<Rightarrow> hash_files text_hash files (AList.update file (JStr h) sri))"

definition generate_sri :: "hasher \<Rightarrow> dict option" where
  "generate_sri text_hash =
     hash_files text_hash FILE_LIST [(''__version'', JNum (real_of_int WORKER_VERSION))]"

text \<open>
  The loop of \<^verbatim>\<open>verify_sri\<close> over the items of the generated manifest \<open>sri\<close>, against
  the dictionary \<open>sri'\<close> read from \<^verbatim>\<open>sri.txt\<close> (the source's \<^verbatim>\<open>sri_\<close>).
\<close>

fun matches_file :: "dict \<Rightarrow> dict \<Rightarrow> bool" where
  "matches_file [] sri' = True"
| "matches_file ((k, v) # items) sri' =
     (if k = ''__version'' then matches_file items sri'
      else if map_of sri' k = None \<or> Some v \<noteq> map_of sri' k then False
      else matches_file items sri')"

text \<open>
  \<^verbatim>\<open>verify_sri\<close>; \<open>sri_file\<close> is what \<^verbatim>\<open>json.load\<close> gives for \<^verbatim>\<open>sri.txt\<close>, \<open>None\<close> when
  opening or parsing the file raises.
\<close>

definition verify_sri :: "hasher \<Rightarrow> json option \<Rightarrow> bool" where
  "verify_sri text_hash sri_file =
     (case generate_sri text_hash of
        None \<Rightarrow> False
      | Some sri \<Rightarrow>
          (case sri_file of
             None \<Rightarrow> False
           | Some (JObj sri') \<Rightarrow> matches_file sri sri'
           | Some _ \<Rightarrow> False))"

text \<open>
  The loop of \<^verbatim>\<open>verify_remote_sri\<close> over the items of the downloaded manifest. The
  local manifest \<open>sri\<close> is \<open>None\<close> when \<^verbatim>\<open>generate_sri\<close> returned \<^verbatim>\<open>None\<close>; the test
  \<^verbatim>\<open>k not in sri\<close> then raises TypeError.
\<close>

fun tainted_by :: "dict option \<Rightarrow> dict \<Rightarrow> bool \<Rightarrow> error + bool" where
  "tainted_by sri [] tainted = Inr tainted"
| "tainted_by sri ((k, v) # items) tainted =
     (case sri of
        None \<Rightarrow> Inl TypeError
      | Some loc \<Rightarrow>
          tainted_by sri items
            (if map_of loc k = None \<or> Some v \<noteq> map_of loc k then True else tainted))"

text \<open>
  \<^verbatim>\<open>verify_remote_sri\<close>; \<open>downloaded\<close> is the result of \<^verbatim>\<open>download_sri()\<close>, \<open>None\<close>
  when the download or \<^verbatim>\<open>json.loads\<close> raised. The result is \<open>Some True\<close>, \<open>Some False\<close>
  or \<open>None\<close> (the source's \<^verbatim>\<open>True\<close>, \<^verbatim>\<open>False\<close>, \<^verbatim>\<open>None\<close>), or an exception: a
  downloaded value that is no dictionary has no \<^verbatim>\<open>get\<close>.
\<close>

definition verify_remote_sri :: "hasher \<Rightarrow> json option \<Rightarrow> error + bool option" where
  "verify_remote_sri text_hash downloaded =
     (let sri = generate_sri text_hash
      in case downloaded of
           None \<Rightarrow> Inr None
         | Some JNull \<Rightarrow> Inr None
         | Some (JObj sri') \<Rightarrow>
             (let version = (case map_of sri' ''__version'' of None \<Rightarrow> JNum (- 1) | Some v \<Rightarrow> v)
              in if version \<noteq> JNum (real_of_int WORKER_VERSION) then Inr (Some True)
                 else (case tainted_by sri sri' False of
                         Inl e \<Rightarrow> Inl e
                       | Inr tainted \<Rightarrow> Inr (Some (\<not> tainted))))
         | Some _ \<Rightarrow> Inl AttributeError)"

text \<open>An install directory whose three files hash to \<open>h1\<close>, \<open>h2\<close>, \<open>h3\<close>.\<close>

definition disk_hashes :: hasher where
  "disk_hashes = [''updater.py'' \<mapsto> ''h1'', ''worker.py'' \<mapsto> ''h2'', ''games.py'' \<mapsto> ''h3'']"

subsection \<open>Numbers as text, CRC-32\<close>

definition digit_char :: "nat \<Rightarrow> char" where
  "digit_char d = ''0123456789abcdef'' ! d"

fun dec_digits :: "nat \<Rightarrow> string" where
  "dec_digits n = (if n < 10 then [digit_char n] else dec_digits (n div 10) @ [digit_char (n mod 10)])"

fun hex_digits :: "nat \<Rightarrow> string" where
  "hex_digits n = (if n < 16 then [digit_char n] else hex_digits (n div 16) @ [digit_char (n mod 16)])"

declare dec_digits.simps [simp del] hex_digits.simps [simp del]

text \<open>Python's \<^verbatim>\<open>str\<close> of an integer and \<^verbatim>\<open>hex\<close> of a non-negative one.\<close>

definition str_int :: "int \<Rightarrow> string" where
  "str_int i = (if i < 0 then CHR ''-'' # dec_digits (nat (- i)) else dec_digits (nat i))"

definition hex :: "nat \<Rightarrow> string" where
  "hex n = ''0x'' @ hex_digits n"

type_synonym byte = "8 word"

text \<open>
  \<^verbatim>\<open>zlib.crc32\<close>: the CRC-32 of IEEE 802.3 (reflected polynomial \<open>0xEDB88320\<close>, initial
  value and final complement \<open>0xFFFFFFFF\<close>), one bit at a time.
\<close>

definition crc_bit :: "32 word \<Rightarrow> 32 word" where
  "crc_bit c = (if bit c 0 then drop_bit 1 c XOR 0xEDB88320 else drop_bit 1 c)"

definition crc_byte :: "byte \<Rightarrow> 32 word \<Rightarrow> 32 word" where
  "crc_byte b c = (crc_bit ^^ 8) (c XOR ucast b)"

definition crc32 :: "byte list \<Rightarrow> nat" where
  "crc32 bs = unat (fold crc_byte bs 0xFFFFFFFF XOR 0xFFFFFFFF)"

text \<open>
  \<^verbatim>\<open>bytes.decode("utf-8", errors="ignore").encode()\<close>: the bytes that remain are those of
  the well-formed UTF-8 sequences. \<open>utf8_len\<close> is the length of the well-formed sequence
  at the head of the bytes, 0 if there is none; a byte that starts none is skipped. (The
  decoder skips the longest prefix of a sequence that is still valid; the bytes after
  the first in such a prefix are continuation bytes, which start no sequence, so that
  skipping one byte at a time leaves the same bytes.)
\<close>

definition continuation :: "byte \<Rightarrow> bool" where
  "continuation b = (0x80 \<le> b \<and> b \<le> 0xBF)"

fun utf8_len :: "byte list \<Rightarrow> nat" where
  "utf8_len [] = 0"
| "utf8_len (b0 # rest) =
     (if b0 \<le> 0x7F then 1
      else if 0xC2 \<le> b0 \<and> b0 \<le> 0xDF then
        (case rest of
           b1 # _ \<Rightarrow> if continuation b1 then 2 else 0
         | _ \<Rightarrow> 0)
      else if 0xE0 \<le> b0 \<and> b0 \<le> 0xEF then
        (case rest of
           b1 # b2 # _ \<Rightarrow>
             if (if b0 = 0xE0 then 0xA0 else 0x80) \<le> b1
                \<and> b1 \<le> (if b0 = 0xED then 0x9F else 0xBF) \<and> continuation b2
             then 3 else 0
         | _ \<Rightarrow> 0)
      else if 0xF0 \<le> b0 \<and> b0 \<le> 0xF4 then
        (case rest of
           b1 # b2 # b3 # _ \<Rightarrow>
             if (if b0 = 0xF0 then 0x90 else 0x80) \<le> b1
                \<and> b1 \<le> (if b0 = 0xF4 then 0x8F else 0xBF)
                \<and> continuation b2 \<and> continuation b3
             then 4 else 0
         | _ \<Rightarrow> 0)
      else 0)"

function utf8_ignore :: "byte list \<Rightarrow> byte list" where
  "utf8_ignore [] = []"
| "utf8_ignore (b # rest) =
     (if utf8_len (b # rest) = 0 then utf8_ignore rest
      else take (utf8_len (b # rest)) (b # rest)
           @ utf8_ignore (drop (utf8_len (b # rest)) (b # rest)))"
  by pat_completeness auto
termination
  by (relation "measure length") auto

declare utf8_len.simps [simp del] utf8_ignore.simps(2) [simp del]

text \<open>
  The file name \<^verbatim>\<open>gzip.GzipFile\<close> stores in the header of the stream (the field FNAME)
  for the argument \<^verbatim>\<open>filename\<close>: \<^verbatim>\<open>os.path.basename\<close> of it (here the part after the
  last \<open>/\<close>), without a final \<^verbatim>\<open>.gz\<close>. Strings are lists of 8-bit characters here, so
  every name is Latin-1.
\<close>

definition basename :: "string \<Rightarrow> string" where
  "basename p = rev (takeWhile (\<lambda>c. c \<noteq> CHR ''/'') (rev p))"

definition gzip_fname :: "string \<Rightarrow> string" where
  "gzip_fname filename =
     (let fname = basename filename
      in if 3 \<le> length fname \<and> drop (length fname - 3) fname = ''.gz''
         then take (length fname - 3) fname else fname)"

subsection \<open>The shared state and what the worker does to its environment\<close>

text \<open>
  A run as far as the worker reads it: \<^verbatim>\<open>str(run["_id"])\<close>, the keys of the
  dictionary \<^verbatim>\<open>run["args"]\<close> and the keys of the dictionary \<^verbatim>\<open>run["my_task"]\<close>.
\<close>

record run =
  run_id :: string
  args :: "string list"
  my_task :: "string list"

text \<open>
  The dictionary \<^verbatim>\<open>current_state\<close> of \<^verbatim>\<open>worker()\<close>, shared by the main loop, the
  heartbeat thread and the signal handler. \<open>last_updated\<close> is a time in seconds.
\<close>

record current_state =
  run :: "run option"
  task_id :: "int option"
  alive :: bool
  last_updated :: real

text \<open>
  The exceptions \<^verbatim>\<open>run_games\<close> can raise, by the \<^verbatim>\<open>except\<close> clause of
  \<^verbatim>\<open>fetch_and_handle_task\<close> that catches them, in the order of the clauses:
  a FatalException, a RunException, any other WorkerException, any other Exception.
  The first three carry \<^verbatim>\<open>str(e)\<close>; the last carries the name of its type, the frames
  of its traceback (base name of the file and line; the first frame apart, since a
  traceback in a handler is never empty) and \<^verbatim>\<open>str(e)\<close>.
\<close>

type_synonym frame = "string \<times> nat"

datatype exn =
    FatalException string
  | RunException string
  | WorkerException string
  | OtherException string frame "frame list" string

text \<open>
  The JSON body of a request. The fields \<^verbatim>\<open>password\<close> and \<^verbatim>\<open>worker_info\<close>, which
  every request carries unchanged, are left out. \<open>p_pgn\<close> stands for the base64 text of
  a gzip stream: what is kept is the file name stored in the header of the stream and
  the bytes that are compressed.
\<close>

record payload =
  p_run_id :: string
  p_task_id :: int
  p_message :: "string option"
  p_pgn :: "(string \<times> byte list) option"

datatype effect =
    Post string payload
  | Unlink string
  | Sleep int
  | Release_lock
  | Join_heartbeat

text \<open>What \<^verbatim>\<open>send_api_post_request\<close> does: it raises or returns a dictionary.\<close>

datatype reply = Failed | Reply dict

subsection \<open>The signal handler: \<^verbatim>\<open>on_sigint\<close>\<close>

text \<open>\<open>signame\<close> is \<^verbatim>\<open>str_signal(signal)\<close>. The handler returns by raising.\<close>

definition on_sigint :: "string \<Rightarrow> current_state \<Rightarrow> current_state \<times> exn" where
  "on_sigint signame cs =
     (cs\<lparr>alive := False\<rparr>, FatalException (''Terminated by signal '' @ signame @ ''.''))"

subsection \<open>The heartbeat thread: \<^verbatim>\<open>heartbeat\<close>\<close>

text \<open>
  One pass through the body of the \<^verbatim>\<open>while\<close> loop, after \<^verbatim>\<open>time.sleep(1)\<close>: \<open>now\<close>
  is the clock read by \<^verbatim>\<open>datetime.now\<close>, \<open>rep\<close> what the request to \<^verbatim>\<open>/api/beat\<close>
  does if it is sent. The result is the new shared state and the requests sent.
\<close>

definition heartbeat_body ::
  "string \<Rightarrow> real \<Rightarrow> reply \<Rightarrow> current_state \<Rightarrow> current_state \<times> effect list" where
  "heartbeat_body remote now rep cs =
     (if last_updated cs + 120 < now then
        (let cs1 = cs\<lparr>last_updated := now\<rparr>
         in case (run cs1, task_id cs1) of
              (Some r, Some t) \<Rightarrow>
                (let beat = Post (remote @ ''/api/beat'')
                              \<lparr>p_run_id = run_id r, p_task_id = t,
                               p_message = None, p_pgn = None\<rparr>
                 in case rep of
                      Failed \<Rightarrow> (cs1, [beat])
                    | Reply req \<Rightarrow>
                        if map_of req ''error'' = None
                           \<and> \<not> truthy (case map_of req ''task_alive'' of
                                          None \<Rightarrow> JBool True | Some v \<Rightarrow> v)
                        then (cs1\<lparr>task_id := None, run := None\<rparr>, [beat])
                        else (cs1, [beat]))
            | _ \<Rightarrow> (cs1, []))
      else (cs, []))"

text \<open>
  The loop: one element of \<open>ticks\<close> for each wake-up, the clock it reads and the reply
  a beat would get. The loop ends when \<open>alive\<close> is false; it returns here as well when
  the wake-ups are used up.
\<close>

fun heartbeat ::
  "string \<Rightarrow> (real \<times> reply) list \<Rightarrow> current_state \<Rightarrow> current_state \<times> effect list" where
  "heartbeat remote [] cs = (cs, [])"
| "heartbeat remote ((now, rep) # ticks) cs =
     (if alive cs then
        (let (cs1, sent1) = heartbeat_body remote now rep cs;
             (cs2, sent2) = heartbeat remote ticks cs1
         in (cs2, sent1 @ sent2))
      else (cs, []))"

subsection \<open>The message for an unexpected exception: \<^verbatim>\<open>get_exception\<close>\<close>

definition exception_message :: "string \<Rightarrow> string \<Rightarrow> nat \<Rightarrow> string" where
  "exception_message exc_type filename lineno =
     ''Exception '' @ exc_type @ '' at '' @ filename @ '':'' @ str_int (int lineno)
       @ '' WorkerVersion: '' @ str_int WORKER_VERSION"

text \<open>
  The \<^verbatim>\<open>while\<close> loop: \<open>(filename, lineno)\<close> is the frame \<^verbatim>\<open>extract_tb(tb)[i]\<close>, \<open>later\<close>
  the frames after it (reading past the last one raises, which ends the loop).
\<close>

fun get_exception_loop :: "string list \<Rightarrow> string \<Rightarrow> frame \<Rightarrow> frame list \<Rightarrow> string \<Rightarrow> string" where
  "get_exception_loop files exc_type (filename, lineno) later message =
     (if filename \<in> set files then
        (let message' = exception_message exc_type filename lineno
         in case later of
              [] \<Rightarrow> message'
            | f # later' \<Rightarrow> get_exception_loop files exc_type f later' message')
      else message)"

definition get_exception :: "string list \<Rightarrow> string \<Rightarrow> frame \<Rightarrow> frame list \<Rightarrow> string" where
  "get_exception files exc_type first later =
     get_exception_loop files exc_type first later
       (exception_message exc_type (fst first) (snd first))"

subsection \<open>One task: \<^verbatim>\<open>fetch_and_handle_task\<close>\<close>

text \<open>
  The reply to \<^verbatim>\<open>/api/request_task\<close>, in the order the source tests it: the request
  raised; the reply has the key \<^verbatim>\<open>error\<close>; it has the key \<^verbatim>\<open>task_waiting\<close>; it has
  the keys \<^verbatim>\<open>run\<close> and \<^verbatim>\<open>task_id\<close>; it lacks one of these two.
\<close>

datatype task_reply =
    Request_failed
  | Reply_error
  | Task_waiting
  | Task run int
  | Task_incomplete

text \<open>
  The keys the log lines before \<^verbatim>\<open>run_games\<close> read, outside any \<^verbatim>\<open>try\<close>:
  \<^verbatim>\<open>run["my_task"]["num_games"]\<close> and, in \<^verbatim>\<open>run["args"]\<close>, \<^verbatim>\<open>tc\<close>, \<^verbatim>\<open>threads\<close>,
  \<^verbatim>\<open>num_games\<close>, \<^verbatim>\<open>new_tag\<close> and \<^verbatim>\<open>base_tag\<close>. A missing key raises KeyError.
\<close>

definition log_fields :: "run \<Rightarrow> bool" where
  "log_fields r =
     (''num_games'' \<in> set (my_task r)
      \<and> set [''tc'', ''threads'', ''num_games'', ''new_tag'', ''base_tag''] \<subseteq> set (args r))"

text \<open>
  What the call of \<^verbatim>\<open>run_games\<close> does: it returns, it raises, or a signal arrives while
  it runs (\<^verbatim>\<open>on_sigint\<close> runs in the main thread and its FatalException reaches the
  handlers of \<^verbatim>\<open>fetch_and_handle_task\<close>).
\<close>

datatype run_result = Finished | Raised exn | Signalled string

text \<open>
  What one call of \<^verbatim>\<open>fetch_and_handle_task\<close> meets: the result of
  \<^verbatim>\<open>verify_worker_version\<close> (\<^verbatim>\<open>True\<close>, \<^verbatim>\<open>False\<close> or \<^verbatim>\<open>None\<close>), the reply to the task
  request, what \<^verbatim>\<open>run_games\<close> does and leaves in \<^verbatim>\<open>pgn_file\<close>, and the files on
  disk (a path without a file is \<open>None\<close>). When the server has a newer version,
  \<^verbatim>\<open>verify_worker_version\<close> calls \<^verbatim>\<open>update()\<close> of \<^verbatim>\<open>updater.py\<close>, which restarts the
  worker if it succeeds; only an update that fails is described, by the result
  \<^verbatim>\<open>False\<close>.
\<close>

record task_env =
  version_check :: "bool option"
  request :: task_reply
  games :: run_result
  pgn_name :: "string option"
  pgn_crc :: "string option"
  disk :: "string \<rightharpoonup> byte list"

text \<open>
  The \<^verbatim>\<open>try\<close> around \<^verbatim>\<open>run_games\<close>: success, the message for the server, the
  endpoint of the report and the shared state. The text printed to stderr is left out.
\<close>

fun handle_exception :: "exn \<Rightarrow> current_state \<Rightarrow> bool \<times> string \<times> string \<times> current_state" where
  "handle_exception (FatalException m) cs = (False, m, ''/api/failed_task'', cs\<lparr>alive := False\<rparr>)"
| "handle_exception (RunException m) cs = (False, m, ''/api/stop_run'', cs)"
| "handle_exception (WorkerException m) cs = (False, m, ''/api/failed_task'', cs)"
| "handle_exception (OtherException exc_type first later text) cs =
     (False, get_exception [''worker.py'', ''games.py''] exc_type first later,
      ''/api/failed_task'', cs\<lparr>alive := False\<rparr>)"

fun handle_run :: "run_result \<Rightarrow> current_state \<Rightarrow> bool \<times> string \<times> string \<times> current_state" where
  "handle_run Finished cs = (True, [], ''/api/failed_task'', cs)"
| "handle_run (Raised e) cs = handle_exception e cs"
| "handle_run (Signalled signame) cs =
     (let (cs1, e) = on_sigint signame cs in handle_exception e cs1)"

text \<open>
  The end of the function, from the test of \<^verbatim>\<open>pgn_file["name"]\<close> on: the upload and
  the removal of the PGN file. \<open>report\<close> is the payload built for the report, to which
  the upload adds the field \<^verbatim>\<open>pgn\<close>.
\<close>

definition upload_pgn :: "string \<Rightarrow> run \<Rightarrow> int \<Rightarrow> payload \<Rightarrow> task_env \<Rightarrow> effect list" where
  "upload_pgn remote r t report env =
     (case pgn_name env of
        None \<Rightarrow> []
      | Some name \<Rightarrow>
          (case disk env name of
             None \<Rightarrow> []
           | Some file_content \<Rightarrow>
               if length file_content = 0 then []
               else
                 (if ''spsa'' \<notin> set (args r) then
                    (if Some (hex (crc32 file_content)) \<noteq> pgn_crc env then []
                     else [Post (remote @ ''/api/upload_pgn'')
                             (report\<lparr>p_pgn :=
                                Some (gzip_fname (run_id r @ ''-'' @ str_int t @ ''.pgn.gz''),
                                      utf8_ignore file_content)\<rparr>)])
                  else [])
                 @ [Unlink name]))"

text \<open>The dictionary \<^verbatim>\<open>payload\<close> built after the run.\<close>

definition task_payload :: "run \<Rightarrow> int \<Rightarrow> string \<Rightarrow> payload" where
  "task_payload r t server_message =
     \<lparr>p_run_id = run_id r, p_task_id = t, p_message = Some server_message, p_pgn = None\<rparr>"

text \<open>
  \<^verbatim>\<open>fetch_and_handle_task\<close>: how it ends (it returns \<^verbatim>\<open>True\<close> or \<^verbatim>\<open>False\<close>, or an
  exception leaves it), the shared state and what was done. Trimming old files, the
  count of GitHub calls and what is printed are left out; the calls made outside the
  \<^verbatim>\<open>try\<close> blocks, other than the reads of the reply and of the run, are taken to
  return.
\<close>

definition fetch_and_handle_task ::
  "string \<Rightarrow> task_env \<Rightarrow> current_state \<Rightarrow> (error + bool) \<times> current_state \<times> effect list" where
  "fetch_and_handle_task remote env cs =
     (if version_check env = Some False then (Inr False, cs\<lparr>alive := False\<rparr>, [])
      else if version_check env \<noteq> Some True then (Inr False, cs, [])
      else case request env of
             Request_failed \<Rightarrow> (Inr False, cs, [])
           | Reply_error \<Rightarrow> (Inr False, cs, [])
           | Task_waiting \<Rightarrow> (Inr False, cs, [])
           | Task_incomplete \<Rightarrow> (Inl KeyError, cs, [])
           | Task r t \<Rightarrow>
               (let cs1 = cs\<lparr>run := Some r, task_id := Some t\<rparr>
                in if \<not> log_fields r then (Inl KeyError, cs1, [])
                   else
                     (let (success, server_message, api, cs2) = handle_run (games env) cs1;
                          cs3 = cs2\<lparr>task_id := None, run := None\<rparr>;
                          report = task_payload r t server_message
                      in (Inr success, cs3,
                          (if \<not> success then [Post (remote @ api) report] else [])
                          @ upload_pgn remote r t report env))))"

subsection \<open>The main loop and \<^verbatim>\<open>worker\<close>\<close>

text \<open>
  What one iteration of the main loop meets: the environment of its task, whether
  \<^verbatim>\<open>fish.exit\<close> is a file when the task returns, and the signal, if any, that arrives
  during \<^verbatim>\<open>safe_sleep\<close> (the handler's exception is caught there).
\<close>

record iteration =
  task :: task_env
  fish_exit_file :: bool
  sleep_signal :: "string option"

text \<open>The variables of the loop: the shared state, \<^verbatim>\<open>delay\<close> and \<^verbatim>\<open>fish_exit\<close>.\<close>

record loop_state =
  shared :: current_state
  delay :: int
  fish_exit :: bool

text \<open>
  How the body of the loop ends: it goes to the next test of the loop, it leaves the
  loop by \<^verbatim>\<open>break\<close>, or an exception leaves it.
\<close>

datatype flow = Next | Leave | Escape error

text \<open>The body of the loop: the new variables, what was done, and how it ends.\<close>

definition iteration_body ::
  "bool \<Rightarrow> string \<Rightarrow> iteration \<Rightarrow> loop_state \<Rightarrow> loop_state \<times> effect list \<times> flow" where
  "iteration_body fleet remote it s =
     (let (outcome, cs, done) = fetch_and_handle_task remote (task it) (shared s)
      in case outcome of
           Inl e \<Rightarrow> (s\<lparr>shared := cs\<rparr>, done, Escape e)
         | Inr success \<Rightarrow>
             if fish_exit_file it then
               (s\<lparr>shared := cs\<lparr>alive := False\<rparr>, fish_exit := True\<rparr>, done, Leave)
             else if \<not> alive cs then (s\<lparr>shared := cs\<rparr>, done, Leave)
             else if \<not> success then
               (if fleet then (s\<lparr>shared := cs\<lparr>alive := False\<rparr>\<rparr>, done, Leave)
                else
                  (let cs' = (case sleep_signal it of
                                None \<Rightarrow> cs
                              | Some signame \<Rightarrow> fst (on_sigint signame cs))
                   in (s\<lparr>shared := cs', delay := min MAX_RETRY_TIME (delay s * 2)\<rparr>,
                       done @ [Sleep (delay s)], Next)))
             else (s\<lparr>shared := cs, delay := INITIAL_RETRY_TIME\<rparr>, done, Next))"

text \<open>
  The loop over the iterations given. The last component tells how the loop stands
  after them: it has ended (by \<^verbatim>\<open>break\<close> or because \<open>alive\<close> is false), an exception
  has left it, or the iterations given are used up and the loop goes on.
\<close>

datatype standing = Going | Ended | Escaped error

fun main_loop ::
  "bool \<Rightarrow> string \<Rightarrow> iteration list \<Rightarrow> loop_state \<Rightarrow> loop_state \<times> effect list \<times> standing" where
  "main_loop fleet remote [] s = (s, [], if alive (shared s) then Going else Ended)"
| "main_loop fleet remote (it # its) s =
     (if \<not> alive (shared s) then (s, [], Ended)
      else
        (let (s1, done1, how) = iteration_body fleet remote it s
         in case how of
              Leave \<Rightarrow> (s1, done1, Ended)
            | Escape e \<Rightarrow> (s1, done1, Escaped e)
            | Next \<Rightarrow>
                (let (s2, done2, st) = main_loop fleet remote its s1
                 in (s2, done1 @ done2, st))))"

text \<open>
  What \<^verbatim>\<open>worker()\<close> meets outside the main loop. The lock is acquired, or held by
  another worker (\<^verbatim>\<open>openlock.Timeout\<close>), or \<^verbatim>\<open>openlock.FileLock\<close> raised and
  \<^verbatim>\<open>worker_lock\<close> stays \<^verbatim>\<open>None\<close>. \<open>parameters\<close> is how \<^verbatim>\<open>setup_parameters\<close> ends: it returns the options
  (\<open>fleet_flag\<close> is \<^verbatim>\<open>options.fleet\<close>, \<open>remote_url\<close> the text built from protocol, host
  and port), or returns \<^verbatim>\<open>None\<close>, or is left by the \<^verbatim>\<open>SystemExit(0)\<close> that
  \<^verbatim>\<open>argparse\<close> raises after printing the help for \<^verbatim>\<open>-h\<close> or \<^verbatim>\<open>--help\<close> (the
  \<^verbatim>\<open>except Exception\<close> around \<^verbatim>\<open>parse_known_args\<close> does not catch it), or by another
  exception. \<open>first_check\<close> is the first call of \<^verbatim>\<open>verify_worker_version\<close>, \<open>None\<close>
  when it raises. \<open>can_unlink\<close> tells whether \<^verbatim>\<open>unlink\<close> of \<^verbatim>\<open>fish.exit\<close> after the
  loop succeeds. The other calls outside a \<^verbatim>\<open>try\<close> (creating the directory
  \<^verbatim>\<open>testing\<close>, \<^verbatim>\<open>write_sri\<close>, \<^verbatim>\<open>get_uuid\<close>, starting the thread) are taken to return,
  and no signal is taken to arrive outside the main loop.
\<close>

datatype lock_result = Acquired | Timeout | No_lock

record options =
  only_config :: bool
  fleet_flag :: bool
  remote_url :: string

datatype setup_result = Help | Setup_raised error | No_options | Options options

record startup =
  lock :: lock_result
  started :: real
  parameters :: setup_result
  first_check :: "bool option option"
  toolchain :: bool
  fastchess :: bool
  hashes :: hasher
  downloaded :: "json option"
  can_unlink :: bool

text \<open>
  How \<^verbatim>\<open>worker()\<close> ends: it returns a code, or a \<^verbatim>\<open>SystemExit\<close> with a code leaves
  it, or another exception leaves it, or (for the iterations given) it is still in its
  main loop.
\<close>

datatype ending = Return int | System_exit int | Uncaught error | Running

text \<open>
  \<^verbatim>\<open>sys.exit(worker())\<close>: the exit code of the process. Python exits with the code of
  a \<^verbatim>\<open>SystemExit\<close>, and with code 1 when another exception is not caught.
\<close>

fun exit_code :: "ending \<Rightarrow> int option" where
  "exit_code (Return n) = Some n"
| "exit_code (System_exit n) = Some n"
| "exit_code (Uncaught e) = Some 1"
| "exit_code Running = None"

definition initial_state :: "real \<Rightarrow> current_state" where
  "initial_state now = \<lparr>run = None, task_id = None, alive = True, last_updated = now\<rparr>"

text \<open>The variables of the main loop when it starts.\<close>

definition loop_start :: "real \<Rightarrow> loop_state" where
  "loop_start now =
     \<lparr>shared = initial_state now, delay = INITIAL_RETRY_TIME, fish_exit = False\<rparr>"

text \<open>
  The statements after the loop: the removal of \<^verbatim>\<open>fish.exit\<close>, the release of the
  lock (AttributeError when \<^verbatim>\<open>worker_lock\<close> is \<^verbatim>\<open>None\<close>), the join and the return.
\<close>

definition shutdown :: "lock_result \<Rightarrow> bool \<Rightarrow> loop_state \<Rightarrow> ending \<times> effect list" where
  "shutdown l unlinks s =
     (if fish_exit s \<and> \<not> unlinks then (Uncaught OSError, [])
      else
        (let removed = (if fish_exit s then [Unlink ''fish.exit''] else [])
         in if l = Acquired
            then (Return (if fish_exit s then 0 else 1), removed @ [Release_lock, Join_heartbeat])
            else (Uncaught AttributeError, removed)))"

definition worker :: "startup \<Rightarrow> iteration list \<Rightarrow> ending \<times> effect list" where
  "worker st its =
     (if lock st = Timeout then (Return 1, [])
      else case parameters st of
             Help \<Rightarrow> (System_exit 0, [])
           | Setup_raised e \<Rightarrow> (Uncaught e, [])
           | No_options \<Rightarrow> (Return 1, [])
           | Options opts \<Rightarrow>
               if only_config opts then (Return 0, [])
               else if first_check st = Some (Some False) \<or> first_check st = None
                 then (Return 1, [])
               else if \<not> toolchain st then (Return 1, [])
               else if \<not> fastchess st then (Return 1, [])
               else case verify_remote_sri (hashes st) (downloaded st) of
                      Inl e \<Rightarrow> (Uncaught e, [])
                    | Inr None \<Rightarrow> (Return 1, [])
                    | Inr (Some unmodified) \<Rightarrow>
                        (let (s, done, st') =
                               main_loop (fleet_flag opts) (remote_url opts) its
                                 (loop_start (started st))
                         in case st' of
                              Going \<Rightarrow> (Running, done)
                            | Escaped e \<Rightarrow> (Uncaught e, done)
                            | Ended \<Rightarrow>
                                (let (e, done') = shutdown (lock st) (can_unlink st) s
                                 in (e, done @ done'))))"

subsection \<open>Notions the theorems use\<close>

text \<open>
  A task is assigned: both \<^verbatim>\<open>run\<close> and \<^verbatim>\<open>task_id\<close> are set. A reply that keeps the task:
  the request raised, or the reply has an \<^verbatim>\<open>error\<close> key, or no \<^verbatim>\<open>task_alive\<close> key, or
  \<^verbatim>\<open>task_alive\<close> is true.
\<close>

definition keeps_task :: "reply \<Rightarrow> bool" where
  "keeps_task rep =
     (case rep of
        Failed \<Rightarrow> True
      | Reply req \<Rightarrow> map_of req ''error'' \<noteq> None \<or> map_of req ''task_alive'' = None
                      \<or> map_of req ''task_alive'' = Some (JBool True))"

definition has_task :: "current_state \<Rightarrow> bool" where
  "has_task cs = (run cs \<noteq> None \<and> task_id cs \<noteq> None)"

text \<open>Clock readings each at most \<open>d\<close> after the one before.\<close>

fun spaced :: "real \<Rightarrow> real list \<Rightarrow> bool" where
  "spaced d (t # u # ts) = (u \<le> t + d \<and> spaced d (u # ts))"
| "spaced d ts = True"

text \<open>The bodies of the requests to \<^verbatim>\<open>/api/upload_pgn\<close> among what was done.\<close>

definition uploaded :: "string \<Rightarrow> effect list \<Rightarrow> payload list" where
  "uploaded remote done = [p. Post url p \<leftarrow> done, url = remote @ ''/api/upload_pgn'']"

text \<open>The delays slept, in order, among what was done.\<close>

definition sleeps :: "effect list \<Rightarrow> int list" where
  "sleeps done = [d. Sleep d \<leftarrow> done]"

text \<open>
  The frame of a traceback that the message for an unexpected exception names: the last
  of the frames at the head of the traceback whose file is one of \<open>files\<close>, and the first
  frame if its file is none of them.
\<close>

definition reported_frame :: "string list \<Rightarrow> frame \<Rightarrow> frame list \<Rightarrow> frame" where
  "reported_frame files first later =
     (let leading = takeWhile (\<lambda>f. fst f \<in> set files) (first # later)
      in if leading = [] then first else last leading)"

text \<open>
  \<^verbatim>\<open>worker()\<close> gets as far as the check of the remote manifest: the lock is not held
  by another worker, the options were parsed and do not ask for the configuration only,
  the first version check neither failed nor raised, and tool chain and fastchess are
  in place. \<open>fleet_of\<close> and \<open>remote_of\<close> read the parsed options.
\<close>

definition reaches_remote_check :: "startup \<Rightarrow> bool" where
  "reaches_remote_check st =
     (lock st \<noteq> Timeout
      \<and> (case parameters st of Options opts \<Rightarrow> \<not> only_config opts | _ \<Rightarrow> False)
      \<and> first_check st \<noteq> Some (Some False) \<and> first_check st \<noteq> None
      \<and> toolchain st \<and> fastchess st)"

definition fleet_of :: "startup \<Rightarrow> bool" where
  "fleet_of st = (case parameters st of Options opts \<Rightarrow> fleet_flag opts | _ \<Rightarrow> False)"

definition remote_of :: "startup \<Rightarrow> string" where
  "remote_of st = (case parameters st of Options opts \<Rightarrow> remote_url opts | _ \<Rightarrow> [])"



text \<open>
  Every iteration of \<open>its\<close>, run in turn from the loop state \<open>s\<close> without fleet mode,
  fails and is retried: its task returns \<^verbatim>\<open>False\<close> with \<open>alive\<close> still true, there is
  no \<^verbatim>\<open>fish.exit\<close> and no signal during the sleep.
\<close>

fun all_fail :: "string \<Rightarrow> iteration list \<Rightarrow> loop_state \<Rightarrow> bool" where
  "all_fail remote [] s = True"
| "all_fail remote (it # its) s =
     (let (outcome, cs, done) = fetch_and_handle_task remote (task it) (shared s)
      in outcome = Inr False \<and> alive cs \<and> \<not> fish_exit_file it \<and> sleep_signal it = None
         \<and> all_fail remote its (fst (iteration_body False remote it s)))"

text \<open>
  The three sources of events on the shared state, and the states a sequence of events
  goes through: a signal, a pass of the heartbeat loop, an iteration of the main loop.
\<close>

datatype event = Signal string | Beat real reply | Iterate iteration

fun step :: "bool \<Rightarrow> string \<Rightarrow> event \<Rightarrow> loop_state \<Rightarrow> loop_state" where
  "step fleet remote (Signal signame) s = s\<lparr>shared := fst (on_sigint signame (shared s))\<rparr>"
| "step fleet remote (Beat now rep) s = s\<lparr>shared := fst (heartbeat_body remote now rep (shared s))\<rparr>"
| "step fleet remote (Iterate it) s = fst (iteration_body fleet remote it s)"

fun states :: "bool \<Rightarrow> string \<Rightarrow> event list \<Rightarrow> loop_state \<Rightarrow> loop_state list" where
  "states fleet remote [] s = [s]"
| "states fleet remote (e # es) s = s # states fleet remote es (step fleet remote e s)"

text \<open>How often a list of flags goes from true to false, and from false to true.\<close>

fun falls :: "bool list \<Rightarrow> nat" where
  "falls (a # b # bs) = (if a \<and> \<not> b then 1 else 0) + falls (b # bs)"
| "falls bs = 0"

fun rises :: "bool list \<Rightarrow> nat" where
  "rises (a # b # bs) = (if \<not> a \<and> b then 1 else 0) + rises (b # bs)"
| "rises bs = 0"



subsection \<open>Examples\<close>

text \<open>
  A run with every key the worker reads; a shared state with task 3 of this run and
  one without a task.
\<close>

definition R1 :: run where
  "R1 = \<lparr>run_id = ''R1'',
          args = [''sprt'', ''tc'', ''threads'', ''num_games'', ''new_tag'', ''base_tag''],
          my_task = [''num_games'']\<rparr>"

definition busy :: current_state where
  "busy = \<lparr>run = Some R1, task_id = Some 3, alive = True, last_updated = 0\<rparr>"

definition idle :: current_state where
  "idle = \<lparr>run = None, task_id = None, alive = True, last_updated = 0\<rparr>"

text \<open>
  An environment of a task: the worker is up to date, the dispatcher hands out task 3
  of the run \<open>R1\<close>, \<^verbatim>\<open>run_games\<close> does \<open>g\<close> and records the PGN file
  \<^verbatim>\<open>testing/R1-3.pgn\<close> with the checksum \<open>crc\<close>; \<open>content\<close> is that file on disk.
\<close>

definition example_env :: "run_result \<Rightarrow> byte list option \<Rightarrow> string option \<Rightarrow> task_env" where
  "example_env g content crc =
     \<lparr>version_check = Some True, request = Task R1 3, games = g,
      pgn_name = Some ''testing/R1-3.pgn'', pgn_crc = crc,
      disk = (\<lambda>p. if p = ''testing/R1-3.pgn'' then content else None)\<rparr>"

text \<open>The frames after the first of a traceback.\<close>

definition example_trace :: "frame list" where
  "example_trace = [(''games.py'', 1500), (''games.py'', 812), (''chess.py'', 20)]"

text \<open>
  The manifest of version 286 for the install directory of the examples, but for the
  hash of \<^verbatim>\<open>worker.py\<close>; a start of \<^verbatim>\<open>worker()\<close> where everything before the check of
  the remote manifest goes well, and \<open>d\<close> is what the download gives.
\<close>

definition remote_manifest :: "string \<Rightarrow> dict" where
  "remote_manifest worker_hash =
     [(''__version'', JNum 286), (''updater.py'', JStr ''h1''),
      (''worker.py'', JStr worker_hash), (''games.py'', JStr ''h3'')]"

definition good_start :: "json option \<Rightarrow> startup" where
  "good_start d =
     \<lparr>lock = Acquired, started = 0,
      parameters = Options \<lparr>only_config = False, fleet_flag = False, remote_url = ''http://h''\<rparr>,
      first_check = Some (Some True), toolchain = True, fastchess = True,
      hashes = disk_hashes, downloaded = d, can_unlink = True\<rparr>"

text \<open>
  Iterations: the dispatcher has no task; the task runs and succeeds; a signal arrives
  while the task runs; the dispatcher has no task and \<^verbatim>\<open>fish.exit\<close> is there when the
  request returns.
\<close>

definition waiting :: iteration where
  "waiting = \<lparr>task = (example_env Finished None None)\<lparr>request := Task_waiting\<rparr>,
              fish_exit_file = False, sleep_signal = None\<rparr>"

definition succeeding :: iteration where
  "succeeding = \<lparr>task = example_env Finished None None,
                 fish_exit_file = False, sleep_signal = None\<rparr>"

definition interrupted :: iteration where
  "interrupted = \<lparr>task = example_env (Signalled ''SIGINT'') None None,
                  fish_exit_file = False, sleep_signal = None\<rparr>"

definition sentinel_seen :: iteration where
  "sentinel_seen = waiting\<lparr>fish_exit_file := True\<rparr>"

text \<open>An iteration whose reply from the dispatcher has no \<^verbatim>\<open>task_id\<close>.\<close>

definition incomplete :: iteration where
  "incomplete = waiting\<lparr>task := (task waiting)\<lparr>request := Task_incomplete\<rparr>\<rparr>"

text \<open>
  Starts of \<^verbatim>\<open>worker()\<close>: one whose remote manifest matches the local files, the same
  in fleet mode, one that asks for the configuration only, and one that asks for the
  help.
\<close>

definition verified_start :: startup where
  "verified_start = good_start (Some (JObj (remote_manifest ''h2'')))"

definition fleet_start :: startup where
  "fleet_start = verified_start
     \<lparr>parameters := Options \<lparr>only_config = False, fleet_flag = True, remote_url = ''http://h''\<rparr>\<rparr>"


definition help_start :: startup where
  "help_start = (good_start None)\<lparr>parameters := Help\<rparr>"

text \<open>A heartbeat pass, a signal, another heartbeat pass.\<close>

definition signal_then_beat :: "event list" where
  "signal_then_beat = [Beat 121 Failed, Signal ''SIGINT'', Beat 242 (Reply [])]"

section \<open>Theorems\<close>

subsection \<open>C1: the concurrency clamp\<close>

text \<open>
  C1, as stated, fails: a constant expression whose value is exactly \<open>MAX\<close> is not
  clamped to \<open>MAX - 1\<close>; the code rejects it with ValueError.
\<close>

theorem concurrency_naked_max_rejected:
  "concurrency 4 ''4'' (IntValue 4) = Inl ValueError \<and> spec_concurrency 4 ''4'' 4 = Some 3"
  by (simp add: concurrency_def spec_concurrency_def)

text \<open>
  C1, amended. When the parsed value rounds to the integer \<open>v\<close>, the expression is
  accepted if and only if \<open>1 \<le> v\<close> and either \<open>v < MAX\<close>, or \<open>v = MAX\<close> and the
  expression textually contains "MAX"; the accepted concurrency is then \<open>v\<close> itself,
  which is also what the specification's clamp gives there. Every other expression is
  rejected with ValueError, among them those with \<open>v \<le> 0\<close> or \<open>v > MAX\<close>.
\<close>

theorem concurrency_accepts_exactly:
  assumes "parse_round parsed = Some v"
  shows "concurrency maxv x parsed =
           (if 1 \<le> v \<and> (v < maxv \<or> (v = maxv \<and> contains ''MAX'' x))
            then Inr (x, v) else Inl ValueError)
         \<and> (\<forall>c. concurrency maxv x parsed = Inr (x, c) \<longrightarrow>
                c = v \<and> spec_concurrency maxv x v = Some v)
         \<and> (v \<le> 0 \<or> v > maxv \<longrightarrow> concurrency maxv x parsed = Inl ValueError)"
  using assms by (auto simp: concurrency_def spec_concurrency_def split: if_splits)

theorem concurrency_accepts_exactly_witness:
  "parse_round (IntValue 8) = Some 8
   \<and> concurrency 8 ''MAX'' (IntValue 8) = Inr (''MAX'', 8)
   \<and> spec_concurrency 8 ''MAX'' 8 = Some 8"
proof -
  have r: "parse_round (IntValue 8) = Some 8"
    by simp
  have t: "1 \<le> (8::int) \<and> ((8::int) < 8 \<or> ((8::int) = 8 \<and> contains ''MAX'' ''MAX''))"
    by simp
  note w = concurrency_accepts_exactly [OF r, of 8 "''MAX''"]
  from w t have c: "concurrency 8 ''MAX'' (IntValue 8) = Inr (''MAX'', 8)"
    by presburger
  from w c have "spec_concurrency 8 ''MAX'' 8 = Some 8"
    by blast
  with r c show ?thesis
    by blast
qed

lemma round_half_even_examples:
  "round_half_even (5 / 2) = 2" "round_half_even (7 / 2) = 4" "round_half_even (13 / 4) = 3"
  by (simp_all add: round_half_even_def)

subsection \<open>Integrity manifests: facts\<close>

lemma matches_file_iff:
  "matches_file items d \<longleftrightarrow> (\<forall>(k, v) \<in> set items. k \<noteq> ''__version'' \<longrightarrow> map_of d k = Some v)"
  by (induction items d rule: matches_file.induct) auto

lemma hash_files_None:
  "hash_files th files sri = None \<longleftrightarrow> (\<exists>k \<in> set files. th k = None)"
  by (induction files arbitrary: sri) (auto split: option.splits)

lemma hash_files_Some:
  "hash_files th files sri = Some s \<Longrightarrow> distinct (map fst sri) \<Longrightarrow>
     distinct (map fst s)
     \<and> (\<forall>k. map_of s k = (if k \<in> set files then map_option JStr (th k) else map_of sri k))"
proof (induction files arbitrary: sri)
  case Nil
  then show ?case by simp
next
  case (Cons f fs)
  from Cons.prems(1) obtain h where h: "th f = Some h"
    and rest: "hash_files th fs (AList.update f (JStr h) sri) = Some s"
    by (auto split: option.splits)
  have d: "distinct (map fst (AList.update f (JStr h) sri))"
    using Cons.prems(2) by (simp add: distinct_update)
  from Cons.IH [OF rest d] h show ?case
    by (auto simp: update_conv')
qed

lemma tainted_by_Some:
  "tainted_by (Some loc) items t = Inr (t \<or> (\<exists>(k, v) \<in> set items. map_of loc k \<noteq> Some v))"
  by (induction items arbitrary: t) auto

lemma tainted_by_None:
  "items \<noteq> [] \<Longrightarrow> tainted_by None items t = Inl TypeError"
  by (cases items) auto

lemma generate_sri_None:
  "generate_sri th = None \<longleftrightarrow> (\<exists>k \<in> set FILE_LIST. th k = None)"
  by (simp add: generate_sri_def hash_files_None)

lemma generate_sri_Some:
  assumes "generate_sri th = Some s"
  shows "distinct (map fst s)"
    and "map_of s k =
           (if k \<in> set FILE_LIST then map_option JStr (th k)
            else if k = ''__version'' then Some (JNum (real_of_int WORKER_VERSION)) else None)"
  using hash_files_Some [OF assms [unfolded generate_sri_def]] by simp_all

lemma version_not_a_file: "''__version'' \<notin> set FILE_LIST"
  by (simp add: FILE_LIST_def)

lemma matches_generated:
  assumes "generate_sri th = Some s"
  shows "matches_file s d \<longleftrightarrow>
           (\<forall>k \<in> set FILE_LIST. \<exists>h. th k = Some h \<and> map_of d k = Some (JStr h))"
proof -
  have all_hashed: "\<forall>k \<in> set FILE_LIST. th k \<noteq> None"
    using assms generate_sri_None [of th] by auto
  have "matches_file s d \<longleftrightarrow>
          (\<forall>k v. map_of s k = Some v \<longrightarrow> k \<noteq> ''__version'' \<longrightarrow> map_of d k = Some v)"
    using generate_sri_Some(1) [OF assms] by (auto simp: matches_file_iff)
  also have "\<dots> \<longleftrightarrow> (\<forall>k \<in> set FILE_LIST. \<exists>h. th k = Some h \<and> map_of d k = Some (JStr h))"
  proof
    assume l: "\<forall>k v. map_of s k = Some v \<longrightarrow> k \<noteq> ''__version'' \<longrightarrow> map_of d k = Some v"
    show "\<forall>k \<in> set FILE_LIST. \<exists>h. th k = Some h \<and> map_of d k = Some (JStr h)"
    proof
      fix k assume k: "k \<in> set FILE_LIST"
      with all_hashed obtain h where h: "th k = Some h" by auto
      from k h have "map_of s k = Some (JStr h)"
        by (simp add: generate_sri_Some(2) [OF assms])
      moreover from k version_not_a_file have "k \<noteq> ''__version''" by auto
      ultimately have "map_of d k = Some (JStr h)" using l by blast
      with h show "\<exists>h. th k = Some h \<and> map_of d k = Some (JStr h)" by blast
    qed
  next
    assume r: "\<forall>k \<in> set FILE_LIST. \<exists>h. th k = Some h \<and> map_of d k = Some (JStr h)"
    show "\<forall>k v. map_of s k = Some v \<longrightarrow> k \<noteq> ''__version'' \<longrightarrow> map_of d k = Some v"
    proof (intro allI impI)
      fix k v assume kv: "map_of s k = Some v" and nv: "k \<noteq> ''__version''"
      from kv nv have k: "k \<in> set FILE_LIST"
        by (simp add: generate_sri_Some(2) [OF assms] split: if_splits)
      with r obtain h where h: "th k = Some h" "map_of d k = Some (JStr h)" by blast
      from kv k h(1) have "v = JStr h"
        by (simp add: generate_sri_Some(2) [OF assms])
      with h(2) show "map_of d k = Some v" by simp
    qed
  qed
  finally show ?thesis .
qed

subsection \<open>C7: local integrity verification\<close>

text \<open>
  C7: \<^verbatim>\<open>verify_sri\<close> returns true if and only if \<^verbatim>\<open>sri.txt\<close> holds a dictionary
  and, for every file of \<open>FILE_LIST\<close>, the file's hash can be computed and equals the
  entry of that file in \<^verbatim>\<open>sri.txt\<close>. The entry \<^verbatim>\<open>__version\<close> is not compared:
  changing or removing it in \<^verbatim>\<open>sri.txt\<close> never changes the result.
\<close>

theorem verify_sri_iff:
  "(verify_sri th sri_file \<longleftrightarrow>
      (\<exists>d. sri_file = Some (JObj d)
         \<and> (\<forall>k \<in> set FILE_LIST. \<exists>h. th k = Some h \<and> map_of d k = Some (JStr h))))
   \<and> verify_sri th (Some (JObj (AList.update ''__version'' x d))) = verify_sri th (Some (JObj d))
   \<and> verify_sri th (Some (JObj (AList.delete ''__version'' d))) = verify_sri th (Some (JObj d))"
proof (cases "generate_sri th")
  case None
  then obtain k where "k \<in> set FILE_LIST" "th k = None"
    using generate_sri_None [of th] by auto
  then have "\<not> (\<forall>k \<in> set FILE_LIST. \<exists>h. th k = Some h \<and> map_of e k = Some (JStr h))" for e
    by (metis option.distinct(1))
  then show ?thesis
    by (simp add: verify_sri_def None)
next
  case (Some s)
  have m: "verify_sri th (Some (JObj e)) = matches_file s e" for e
    by (simp add: verify_sri_def Some)
  have 1: "verify_sri th sri_file \<longleftrightarrow>
      (\<exists>d. sri_file = Some (JObj d)
         \<and> (\<forall>k \<in> set FILE_LIST. \<exists>h. th k = Some h \<and> map_of d k = Some (JStr h)))"
    using matches_generated [OF Some]
    by (auto simp: verify_sri_def Some split: option.splits json.splits)
  have 2: "matches_file s (AList.update ''__version'' x d) = matches_file s d"
    using version_not_a_file
    by (auto simp: matches_generated [OF Some] update_conv')
  have 3: "matches_file s (AList.delete ''__version'' d) = matches_file s d"
    using version_not_a_file
    by (auto simp: matches_generated [OF Some] delete_conv')
  from 1 2 3 show ?thesis
    by (simp only: m) 
qed

theorem verify_sri_iff_witness:
  "verify_sri disk_hashes
     (Some (JObj [(''__version'', JNum 285), (''updater.py'', JStr ''h1''),
                  (''worker.py'', JStr ''h2''), (''games.py'', JStr ''h3'')]))
   \<and> \<not> verify_sri disk_hashes
     (Some (JObj [(''__version'', JNum 286), (''updater.py'', JStr ''h1''),
                  (''worker.py'', JStr ''changed''), (''games.py'', JStr ''h3'')]))"
proof -
  have a: "\<forall>k \<in> set FILE_LIST. \<exists>h. disk_hashes k = Some h \<and>
     map_of [(''__version'', JNum 285), (''updater.py'', JStr ''h1''),
             (''worker.py'', JStr ''h2''), (''games.py'', JStr ''h3'')] k = Some (JStr h)"
    by (simp add: FILE_LIST_def disk_hashes_def)
  have b: "\<not> (\<forall>k \<in> set FILE_LIST. \<exists>h. disk_hashes k = Some h \<and>
     map_of [(''__version'', JNum 286), (''updater.py'', JStr ''h1''),
             (''worker.py'', JStr ''changed''), (''games.py'', JStr ''h3'')] k = Some (JStr h))"
    by (simp add: FILE_LIST_def disk_hashes_def)
  from a b show ?thesis
    using verify_sri_iff [of disk_hashes] by blast
qed

subsection \<open>The heartbeat loop\<close>

lemma body_sends_iff:
  "snd (heartbeat_body remote now rep cs) \<noteq> [] \<longleftrightarrow>
     last_updated cs + 120 < now \<and> has_task cs"
  by (auto simp: heartbeat_body_def has_task_def Let_def split: option.splits reply.splits)

lemma body_sends_what:
  "snd (heartbeat_body remote now rep cs) = [] \<or>
   (\<exists>r t. run cs = Some r \<and> task_id cs = Some t \<and>
      snd (heartbeat_body remote now rep cs) =
        [Post (remote @ ''/api/beat'')
           \<lparr>p_run_id = run_id r, p_task_id = t, p_message = None, p_pgn = None\<rparr>])"
  by (auto simp: heartbeat_body_def Let_def split: option.splits reply.splits)

lemma body_alive: "alive (fst (heartbeat_body remote now rep cs)) = alive cs"
  by (auto simp: heartbeat_body_def Let_def split: option.splits reply.splits)

lemma body_no_task:
  "\<not> has_task cs \<Longrightarrow> \<not> has_task (fst (heartbeat_body remote now rep cs))"
  by (auto simp: heartbeat_body_def has_task_def Let_def split: option.splits reply.splits)

lemma body_keeps_task:
  "has_task cs \<Longrightarrow> keeps_task rep \<Longrightarrow> has_task (fst (heartbeat_body remote now rep cs))"
  by (auto simp: heartbeat_body_def has_task_def keeps_task_def Let_def split: option.splits reply.splits)

lemma body_idle:
  "\<not> last_updated cs + 120 < now \<Longrightarrow> heartbeat_body remote now rep cs = (cs, [])"
  by (simp add: heartbeat_body_def)

lemma heartbeat_Cons:
  "snd (heartbeat remote ((now, rep) # ticks) cs) =
     (if alive cs
      then snd (heartbeat_body remote now rep cs)
           @ snd (heartbeat remote ticks (fst (heartbeat_body remote now rep cs)))
      else [])"
  "fst (heartbeat remote ((now, rep) # ticks) cs) =
     (if alive cs
      then fst (heartbeat remote ticks (fst (heartbeat_body remote now rep cs)))
      else cs)"
  by (simp_all add: case_prod_unfold Let_def)

lemma heartbeat_no_task:
  "\<not> has_task cs \<Longrightarrow> snd (heartbeat remote ticks cs) = []"
proof (induction ticks arbitrary: cs)
  case Nil
  then show ?case by simp
next
  case (Cons tick ticks)
  obtain now rep where tick: "tick = (now, rep)" by (cases tick)
  have "snd (heartbeat_body remote now rep cs) = []"
    using Cons.prems body_sends_iff [of remote now rep cs] by blast
  moreover have "snd (heartbeat remote ticks (fst (heartbeat_body remote now rep cs))) = []"
    using Cons.IH body_no_task [OF Cons.prems] by blast
  ultimately show ?case
    by (simp add: tick heartbeat_Cons del: heartbeat.simps)
qed

lemma heartbeat_beats_in_time:
  assumes "has_task cs" "alive cs" "ticks \<noteq> []" "\<forall>tick \<in> set ticks. keeps_task (snd tick)"
    "last_updated cs + 120 < fst (last ticks)"
  shows "snd (heartbeat remote ticks cs) \<noteq> []"
  using assms
proof (induction ticks arbitrary: cs)
  case Nil
  then show ?case by simp
next
  case (Cons tick ticks)
  obtain now rep where tick: "tick = (now, rep)" by (cases tick)
  show ?case
  proof (cases "last_updated cs + 120 < now")
    case True
    then have "snd (heartbeat_body remote now rep cs) \<noteq> []"
      using Cons.prems(1) body_sends_iff by blast
    then show ?thesis
      using Cons.prems(2) by (simp add: tick heartbeat_Cons del: heartbeat.simps)
  next
    case False
    then have idle: "heartbeat_body remote now rep cs = (cs, [])"
      by (rule body_idle)
    from False Cons.prems(5) have ne: "ticks \<noteq> []"
      by (auto simp: tick)
    then have "last_updated cs + 120 < fst (last ticks)"
      using Cons.prems(5) by simp
    then have "snd (heartbeat remote ticks cs) \<noteq> []"
      using Cons.IH [of cs] Cons.prems ne by simp
    then show ?thesis
      using Cons.prems(2) by (simp add: tick idle heartbeat_Cons del: heartbeat.simps)
  qed
qed

lemma prefix_reaches:
  assumes "ticks \<noteq> []" "spaced d (map fst ticks)" "fst (hd ticks) \<le> bound"
    "limit < fst (last ticks)" "limit + d \<le> bound"
  shows "takeWhile (\<lambda>tick. fst tick \<le> bound) ticks \<noteq> []
         \<and> limit < fst (last (takeWhile (\<lambda>tick. fst tick \<le> bound) ticks))"
  using assms
proof (induction ticks rule: induct_list012)
  case 1
  then show ?case by simp
next
  case (2 t)
  then show ?case by simp
next
  case (3 t u rest)
  show ?case
  proof (cases "fst u \<le> bound")
    case True
    with 3 show ?thesis by simp
  next
    case False
    with "3.prems" show ?thesis by simp
  qed
qed

lemma heartbeat_within:
  assumes "has_task cs" "alive cs" "ticks \<noteq> []" "\<forall>tick \<in> set ticks. keeps_task (snd tick)"
    "spaced d (map fst ticks)" "fst (hd ticks) \<le> last_updated cs + 120 + d"
    "last_updated cs + 120 < fst (last ticks)"
  shows "snd (heartbeat remote (takeWhile (\<lambda>tick. fst tick \<le> last_updated cs + 120 + d) ticks) cs) \<noteq> []"
proof -
  let ?p = "takeWhile (\<lambda>tick. fst tick \<le> last_updated cs + 120 + d) ticks"
  have "?p \<noteq> [] \<and> last_updated cs + 120 < fst (last ?p)"
    using prefix_reaches [where ticks = ticks and limit = "last_updated cs + 120"
        and bound = "last_updated cs + 120 + d" and d = d] assms(3,5,6,7) by simp
  moreover have "\<forall>tick \<in> set ?p. keeps_task (snd tick)"
    using assms(4) by (meson set_takeWhileD)
  ultimately show ?thesis
    using heartbeat_beats_in_time [OF assms(1,2)] by blast
qed

lemma body_same_task:
  "keeps_task rep \<Longrightarrow>
     run (fst (heartbeat_body remote now rep cs)) = run cs
     \<and> task_id (fst (heartbeat_body remote now rep cs)) = task_id cs"
  by (auto simp: heartbeat_body_def keeps_task_def Let_def split: option.splits reply.splits)

lemma body_drops_task:
  "has_task cs \<Longrightarrow> last_updated cs + 120 < now \<Longrightarrow> map_of req ''error'' = None \<Longrightarrow>
   map_of req ''task_alive'' = Some (JBool False) \<Longrightarrow>
     run (fst (heartbeat_body remote now (Reply req) cs)) = None
     \<and> task_id (fst (heartbeat_body remote now (Reply req) cs)) = None"
  by (auto simp: heartbeat_body_def has_task_def)

subsection \<open>C5: when beats are sent\<close>

text \<open>
  C5, as stated, fails in two places. A reply that carries \<^verbatim>\<open>task_alive = false\<close>
  together with an \<^verbatim>\<open>error\<close> key does not drop the task: the beat is sent and both
  \<^verbatim>\<open>run\<close> and \<^verbatim>\<open>task_id\<close> stay set. And a beat need not come within 121 seconds:
  with a task assigned and \<open>last_updated = 0\<close>, a wake-up that reads the clock at 120
  sends nothing, and the next one, which reads the clock a second and a half later
  (\<^verbatim>\<open>time.sleep(1)\<close> and the time the pass takes), sends the first beat at 121.5.
\<close>

theorem heartbeat_keeps_task_and_beats_late:
  "heartbeat_body ''http://h'' 121
     (Reply [(''error'', JStr ''no''), (''task_alive'', JBool False)]) busy
   = (busy\<lparr>last_updated := 121\<rparr>,
      [Post ''http://h/api/beat''
         \<lparr>p_run_id = ''R1'', p_task_id = 3, p_message = None, p_pgn = None\<rparr>])
   \<and> run (busy\<lparr>last_updated := 121\<rparr>) = Some R1
   \<and> task_id (busy\<lparr>last_updated := 121\<rparr>) = Some 3
   \<and> last_updated busy = 0 \<and> alive busy
   \<and> snd (heartbeat ''http://h'' [(120, Failed)] busy) = []
   \<and> snd (heartbeat ''http://h'' [(120, Failed), (121.5, Failed)] busy)
     = [Post ''http://h/api/beat''
          \<lparr>p_run_id = ''R1'', p_task_id = 3, p_message = None, p_pgn = None\<rparr>]"
  by (simp add: heartbeat_body_def busy_def R1_def)

text \<open>
  C5, amended. One pass of the heartbeat loop sends a beat if and only if the clock it
  reads is more than 120 seconds past \<open>last_updated\<close> and a task is assigned. While no
  task is assigned, no number of wake-ups sends a beat. While a task stays assigned
  (the worker alive, no reply dropping the task), any stretch of wake-ups whose last
  clock reading is more than 120 seconds past \<open>last_updated\<close> contains a beat; and if
  each wake-up reads the clock at most \<open>d\<close> seconds after the one before, the beat is
  sent by a wake-up whose clock reads at most \<open>last_updated + 120 + d\<close>. A reply to a
  beat that has no \<^verbatim>\<open>error\<close> key and carries \<^verbatim>\<open>task_alive = false\<close> sets \<^verbatim>\<open>run\<close> and
  \<^verbatim>\<open>task_id\<close> to \<^verbatim>\<open>None\<close>; a pass whose request raises, or whose reply has an
  \<^verbatim>\<open>error\<close> key, or no \<^verbatim>\<open>task_alive\<close> key, or \<^verbatim>\<open>task_alive = true\<close>, leaves \<^verbatim>\<open>run\<close>
  and \<^verbatim>\<open>task_id\<close> as they are.
\<close>

theorem heartbeat_beats:
  "(snd (heartbeat_body remote now rep cs) \<noteq> [] \<longleftrightarrow>
      last_updated cs + 120 < now \<and> has_task cs)
   \<and> (\<not> has_task cs \<longrightarrow> snd (heartbeat remote ticks cs) = [])
   \<and> (has_task cs \<and> alive cs \<and> ticks \<noteq> [] \<and> (\<forall>tick \<in> set ticks. keeps_task (snd tick))
        \<and> last_updated cs + 120 < fst (last ticks)
      \<longrightarrow> snd (heartbeat remote ticks cs) \<noteq> [])
   \<and> (has_task cs \<and> alive cs \<and> ticks \<noteq> [] \<and> (\<forall>tick \<in> set ticks. keeps_task (snd tick))
        \<and> spaced d (map fst ticks) \<and> fst (hd ticks) \<le> last_updated cs + 120 + d
        \<and> last_updated cs + 120 < fst (last ticks)
      \<longrightarrow> snd (heartbeat remote
                 (takeWhile (\<lambda>tick. fst tick \<le> last_updated cs + 120 + d) ticks) cs) \<noteq> [])
   \<and> (has_task cs \<and> last_updated cs + 120 < now
        \<and> map_of req ''error'' = None \<and> map_of req ''task_alive'' = Some (JBool False)
      \<longrightarrow> run (fst (heartbeat_body remote now (Reply req) cs)) = None
          \<and> task_id (fst (heartbeat_body remote now (Reply req) cs)) = None)
   \<and> (keeps_task rep
      \<longrightarrow> run (fst (heartbeat_body remote now rep cs)) = run cs
          \<and> task_id (fst (heartbeat_body remote now rep cs)) = task_id cs)
   \<and> (map_of req ''error'' \<noteq> None
      \<longrightarrow> run (fst (heartbeat_body remote now (Reply req) cs)) = run cs
          \<and> task_id (fst (heartbeat_body remote now (Reply req) cs)) = task_id cs)"
proof (intro conjI impI)
  show "snd (heartbeat_body remote now rep cs) \<noteq> [] \<longleftrightarrow>
      last_updated cs + 120 < now \<and> has_task cs"
    by (rule body_sends_iff)
next
  assume "\<not> has_task cs"
  then show "snd (heartbeat remote ticks cs) = []"
    by (rule heartbeat_no_task)
next
  assume "has_task cs \<and> alive cs \<and> ticks \<noteq> [] \<and> (\<forall>tick \<in> set ticks. keeps_task (snd tick))
        \<and> last_updated cs + 120 < fst (last ticks)"
  then show "snd (heartbeat remote ticks cs) \<noteq> []"
    using heartbeat_beats_in_time by blast
next
  assume "has_task cs \<and> alive cs \<and> ticks \<noteq> [] \<and> (\<forall>tick \<in> set ticks. keeps_task (snd tick))
        \<and> spaced d (map fst ticks) \<and> fst (hd ticks) \<le> last_updated cs + 120 + d
        \<and> last_updated cs + 120 < fst (last ticks)"
  then show "snd (heartbeat remote
                 (takeWhile (\<lambda>tick. fst tick \<le> last_updated cs + 120 + d) ticks) cs) \<noteq> []"
    using heartbeat_within by blast
next
  assume a: "has_task cs \<and> last_updated cs + 120 < now
        \<and> map_of req ''error'' = None \<and> map_of req ''task_alive'' = Some (JBool False)"
  then show "run (fst (heartbeat_body remote now (Reply req) cs)) = None"
    using body_drops_task by blast
  from a show "task_id (fst (heartbeat_body remote now (Reply req) cs)) = None"
    using body_drops_task by blast
next
  assume k: "keeps_task rep"
  then show "run (fst (heartbeat_body remote now rep cs)) = run cs"
    using body_same_task by blast
  from k show "task_id (fst (heartbeat_body remote now rep cs)) = task_id cs"
    using body_same_task by blast
next
  assume "map_of req ''error'' \<noteq> None"
  then have k: "keeps_task (Reply req)"
    by (simp add: keeps_task_def)
  then show "run (fst (heartbeat_body remote now (Reply req) cs)) = run cs"
    using body_same_task by blast
  from k show "task_id (fst (heartbeat_body remote now (Reply req) cs)) = task_id cs"
    using body_same_task by blast
qed

theorem heartbeat_beats_witness:
  "snd (heartbeat_body ''http://h'' 121 Failed busy) \<noteq> []
   \<and> snd (heartbeat ''http://h'' [(60, Failed), (121, Failed)] idle) = []
   \<and> snd (heartbeat ''http://h'' [(60, Failed), (121, Reply [])] busy) \<noteq> []
   \<and> snd (heartbeat ''http://h''
           (takeWhile (\<lambda>tick. fst tick \<le> last_updated busy + 120 + 3 / 2)
              [(120, Failed), (121.5, Reply []), (123, Failed)]) busy) \<noteq> []
   \<and> run (fst (heartbeat_body ''http://h'' 121 (Reply [(''task_alive'', JBool False)]) busy)) = None
   \<and> task_id (fst (heartbeat_body ''http://h'' 121 (Reply [(''task_alive'', JBool False)]) busy)) = None
   \<and> run (fst (heartbeat_body ''http://h'' 121 Failed busy)) = run busy
   \<and> task_id (fst (heartbeat_body ''http://h'' 121 Failed busy)) = task_id busy
   \<and> run (fst (heartbeat_body ''http://h'' 121
             (Reply [(''error'', JStr ''no''), (''task_alive'', JBool False)]) busy)) = run busy
   \<and> task_id (fst (heartbeat_body ''http://h'' 121
             (Reply [(''error'', JStr ''no''), (''task_alive'', JBool False)]) busy)) = task_id busy"
proof -
  have b: "has_task busy" "alive busy" "last_updated busy + 120 < 121" "\<not> has_task idle"
    by (simp_all add: has_task_def busy_def idle_def)
  have k: "\<forall>tick \<in> set [(60, Failed), (121, Reply [])]. keeps_task (snd tick)"
    "keeps_task Failed"
    by (simp_all add: keeps_task_def)
  have l: "last_updated busy + 120 < fst (last [(60::real, Failed), (121, Reply [])])"
    by (simp add: busy_def)
  have m: "map_of [(''task_alive'', JBool False)] ''error'' = None"
    "map_of [(''task_alive'', JBool False)] ''task_alive'' = Some (JBool False)"
    by simp_all
  note w1 = heartbeat_beats [where remote = "''http://h''" and now = 121 and rep = Failed
      and cs = busy and ticks = "[(60, Failed), (121, Reply [])]"
      and req = "[(''task_alive'', JBool False)]" and d = 1]
  have k3: "\<forall>tick \<in> set [(120, Failed), (121.5, Reply []), (123, Failed)]. keeps_task (snd tick)"
    by (simp add: keeps_task_def)
  have s3: "[(120::real, Failed), (121.5, Reply []), (123, Failed)] \<noteq> []"
    "spaced (3 / 2) (map fst [(120::real, Failed), (121.5, Reply []), (123, Failed)])"
    "fst (hd [(120::real, Failed), (121.5, Reply []), (123, Failed)]) \<le> last_updated busy + 120 + 3 / 2"
    "last_updated busy + 120 < fst (last [(120::real, Failed), (121.5, Reply []), (123, Failed)])"
    by (simp_all add: busy_def)
  have e: "map_of [(''error'', JStr ''no''), (''task_alive'', JBool False)] ''error'' \<noteq> None"
    by simp
  note w3 = heartbeat_beats [where remote = "''http://h''" and now = 121 and rep = Failed
      and cs = busy and ticks = "[(120, Failed), (121.5, Reply []), (123, Failed)]"
      and req = "[(''error'', JStr ''no''), (''task_alive'', JBool False)]" and d = "3 / 2"]
  note w2 = heartbeat_beats [where remote = "''http://h''" and now = 121 and rep = Failed
      and cs = idle and ticks = "[(60, Failed), (121, Failed)]" and req = "[]" and d = 1]
  from w3 b(1,2) k3 s3
  have 3: "snd (heartbeat ''http://h''
           (takeWhile (\<lambda>tick. fst tick \<le> last_updated busy + 120 + 3 / 2)
              [(120, Failed), (121.5, Reply []), (123, Failed)]) busy) \<noteq> []"
    by blast
  from w3 e
  have 4: "run (fst (heartbeat_body ''http://h'' 121
             (Reply [(''error'', JStr ''no''), (''task_alive'', JBool False)]) busy)) = run busy
     \<and> task_id (fst (heartbeat_body ''http://h'' 121
             (Reply [(''error'', JStr ''no''), (''task_alive'', JBool False)]) busy)) = task_id busy"
    by blast
  from w1 b k l m w2 3 4 show ?thesis
    by blast
qed

subsection \<open>C10: the timestamp advances before the task is looked at\<close>

text \<open>
  C10: a pass of the heartbeat loop that reads a clock more than 120 seconds past
  \<open>last_updated\<close> sets \<open>last_updated\<close> to that reading, whether or not a task is
  assigned; without a task it does only that and sends nothing. If a task is assigned
  after such a pass at time \<open>now\<close>, no pass reading a clock up to \<open>now + 120\<close> sends a
  beat, and a pass reading a later clock does.
\<close>

theorem heartbeat_advances_first:
  "(last_updated cs + 120 < now \<longrightarrow> last_updated (fst (heartbeat_body remote now rep cs)) = now)
   \<and> (last_updated cs + 120 < now \<and> \<not> has_task cs \<longrightarrow>
        heartbeat_body remote now rep cs = (cs\<lparr>last_updated := now\<rparr>, []))
   \<and> (last_updated cs + 120 < now \<and> \<not> has_task cs \<and> now' \<le> now + 120 \<longrightarrow>
        snd (heartbeat_body remote now' rep'
               ((fst (heartbeat_body remote now rep cs))\<lparr>run := Some r, task_id := Some t\<rparr>)) = [])
   \<and> (last_updated cs + 120 < now \<and> \<not> has_task cs \<and> now + 120 < now' \<longrightarrow>
        snd (heartbeat_body remote now' rep'
               ((fst (heartbeat_body remote now rep cs))\<lparr>run := Some r, task_id := Some t\<rparr>)) \<noteq> [])"
proof -
  have adv: "last_updated (fst (heartbeat_body remote now rep cs)) = now"
    if "last_updated cs + 120 < now"
    using that by (auto simp: heartbeat_body_def Let_def split: option.splits reply.splits)
  have skip: "heartbeat_body remote now rep cs = (cs\<lparr>last_updated := now\<rparr>, [])"
    if "last_updated cs + 120 < now" "\<not> has_task cs"
    using that by (auto simp: heartbeat_body_def has_task_def Let_def split: option.splits)
  have task: "has_task (c\<lparr>run := Some r, task_id := Some t\<rparr>)" for c
    by (simp add: has_task_def)
  have later: "snd (heartbeat_body remote now' rep' (cs\<lparr>last_updated := now, run := Some r, task_id := Some t\<rparr>)) \<noteq> []
        \<longleftrightarrow> now + 120 < now'"
    using body_sends_iff [of remote now' rep' "cs\<lparr>last_updated := now, run := Some r, task_id := Some t\<rparr>"]
    by (simp add: has_task_def)
  show ?thesis
    using adv skip later by auto
qed

theorem heartbeat_advances_first_witness:
  "last_updated (fst (heartbeat_body ''http://h'' 121 Failed idle)) = 121
   \<and> heartbeat_body ''http://h'' 121 Failed idle = (idle\<lparr>last_updated := 121\<rparr>, [])
   \<and> snd (heartbeat_body ''http://h'' 241 Failed
            ((fst (heartbeat_body ''http://h'' 121 Failed idle))
               \<lparr>run := Some R1, task_id := Some 3\<rparr>)) = []
   \<and> snd (heartbeat_body ''http://h'' 242 Failed
            ((fst (heartbeat_body ''http://h'' 121 Failed idle))
               \<lparr>run := Some R1, task_id := Some 3\<rparr>)) \<noteq> []"
proof -
  have i: "last_updated idle + 120 < 121" "\<not> has_task idle"
    by (simp_all add: has_task_def idle_def)
  have t: "(241::real) \<le> 121 + 120" "(121::real) + 120 < 242"
    by simp_all
  note w1 = heartbeat_advances_first [where cs = idle and now = 121 and remote = "''http://h''"
      and rep = Failed and now' = 241 and rep' = Failed
      and r = "R1" and t = 3]
  note w2 = heartbeat_advances_first [where cs = idle and now = 121 and remote = "''http://h''"
      and rep = Failed and now' = 242 and rep' = Failed
      and r = "R1" and t = 3]
  from w1 w2 i t show ?thesis
    by blast
qed

subsection \<open>One task: shared facts\<close>

lemma contains_iff: "contains sub s \<longleftrightarrow> (\<exists>pre post. s = pre @ sub @ post)"
proof (induction s)
  case Nil
  then show ?case by auto
next
  case (Cons c cs)
  show ?case
  proof
    assume "contains sub (c # cs)"
    then consider "take (length sub) (c # cs) = sub" | "contains sub cs" by auto
    then show "\<exists>pre post. c # cs = pre @ sub @ post"
    proof cases
      case 1
      then have "c # cs = [] @ sub @ drop (length sub) (c # cs)"
        by (metis append_Nil append_take_drop_id)
      then show ?thesis by blast
    next
      case 2
      with Cons.IH obtain pre post where "cs = pre @ sub @ post" by blast
      then have "c # cs = (c # pre) @ sub @ post" by simp
      then show ?thesis by blast
    qed
  next
    assume "\<exists>pre post. c # cs = pre @ sub @ post"
    then obtain pre post where e: "c # cs = pre @ sub @ post" by blast
    show "contains sub (c # cs)"
    proof (cases pre)
      case Nil
      with e have "take (length sub) (c # cs) = sub" by simp
      then show ?thesis by simp
    next
      case (Cons p pre')
      with e have "cs = pre' @ sub @ post" by simp
      with Cons.IH have "contains sub cs" by blast
      then show ?thesis by simp
    qed
  qed
qed

lemma task_started:
  assumes "version_check env = Some True" and "request env = Task r t" and "log_fields r"
  shows "fetch_and_handle_task remote env cs =
     (case handle_run (games env) (cs\<lparr>run := Some r, task_id := Some t\<rparr>) of
        (success, server_message, api, cs2) \<Rightarrow>
          (Inr success, cs2\<lparr>task_id := None, run := None\<rparr>,
           (if \<not> success then [Post (remote @ api) (task_payload r t server_message)] else [])
           @ upload_pgn remote r t (task_payload r t server_message) env))"
  using assms by (simp add: fetch_and_handle_task_def Let_def)

lemma task_not_started:
  assumes "version_check env = Some True" and "request env = Task r t" and "\<not> log_fields r"
  shows "fetch_and_handle_task remote env cs
         = (Inl KeyError, cs\<lparr>run := Some r, task_id := Some t\<rparr>, [])"
  using assms by (simp add: fetch_and_handle_task_def Let_def)

lemma example_env_simps:
  "version_check (example_env g content crc) = Some True"
  "request (example_env g content crc) = Task R1 3"
  "games (example_env g content crc) = g"
  "pgn_name (example_env g content crc) = Some ''testing/R1-3.pgn''"
  "pgn_crc (example_env g content crc) = crc"
  "disk (example_env g content crc) ''testing/R1-3.pgn'' = content"
  by (simp_all add: example_env_def)

lemma R1_simps:
  "log_fields R1" "run_id R1 = ''R1''" "''spsa'' \<notin> set (args R1)"
  by (simp_all add: log_fields_def R1_def)

subsection \<open>C3: the report after a failed run\<close>

lemma get_exception_loop_last:
  "get_exception_loop files ty f later msg =
     (if fst f \<in> set files
      then exception_message ty
             (fst (last (takeWhile (\<lambda>g. fst g \<in> set files) (f # later))))
             (snd (last (takeWhile (\<lambda>g. fst g \<in> set files) (f # later))))
      else msg)"
proof (induction files ty f later msg rule: get_exception_loop.induct)
  case (1 files ty filename lineno later msg)
  show ?case
  proof (cases "filename \<in> set files")
    case False
    then show ?thesis by simp
  next
    case True
    show ?thesis
    proof (cases later)
      case Nil
      with True show ?thesis by simp
    next
      case (Cons g later')
      from "1.IH" [OF True refl Cons]
      show ?thesis
        using True Cons by (cases g) (simp add: Let_def)
    qed
  qed
qed

lemma get_exception_frame:
  "get_exception files ty first later =
     exception_message ty (fst (reported_frame files first later))
       (snd (reported_frame files first later))"
  by (cases first) (simp add: get_exception_def get_exception_loop_last reported_frame_def Let_def)

lemma exception_message_contains:
  "contains ty (exception_message ty filename lineno)"
  "contains (filename @ '':'' @ str_int (int lineno)) (exception_message ty filename lineno)"
  "contains (''WorkerVersion: '' @ str_int WORKER_VERSION) (exception_message ty filename lineno)"
proof -
  have "exception_message ty filename lineno =
      ''Exception '' @ ty @ ('' at '' @ filename @ '':'' @ str_int (int lineno)
       @ '' WorkerVersion: '' @ str_int WORKER_VERSION)"
    by (simp add: exception_message_def)
  then show "contains ty (exception_message ty filename lineno)"
    unfolding contains_iff by blast
  have "exception_message ty filename lineno =
      (''Exception '' @ ty @ '' at '') @ (filename @ '':'' @ str_int (int lineno))
       @ ('' WorkerVersion: '' @ str_int WORKER_VERSION)"
    by (simp add: exception_message_def)
  then show "contains (filename @ '':'' @ str_int (int lineno)) (exception_message ty filename lineno)"
    unfolding contains_iff by blast
  have "exception_message ty filename lineno =
      (''Exception '' @ ty @ '' at '' @ filename @ '':'' @ str_int (int lineno) @ '' '')
       @ (''WorkerVersion: '' @ str_int WORKER_VERSION) @ []"
    by (simp add: exception_message_def)
  then show "contains (''WorkerVersion: '' @ str_int WORKER_VERSION) (exception_message ty filename lineno)"
    unfolding contains_iff by blast
qed

lemma str_worker_version: "str_int WORKER_VERSION = ''286''"
  by (simp add: str_int_def WORKER_VERSION_def dec_digits.simps digit_char_def)

text \<open>
  C3: when the worker is up to date, a task was handed out (of a run with the keys
  the log lines read) and \<^verbatim>\<open>run_games\<close> raises, \<^verbatim>\<open>fetch_and_handle_task\<close> returns
  \<^verbatim>\<open>False\<close>, clears \<^verbatim>\<open>run\<close> and \<^verbatim>\<open>task_id\<close> and sends exactly one report, with the
  identifiers of the run and of the task, whose endpoint and message the kind of
  exception decides: a FatalException is reported to \<^verbatim>\<open>/api/failed_task\<close> with its
  text and \<open>alive\<close> becomes false; a RunException is reported to \<^verbatim>\<open>/api/stop_run\<close>
  with its text; any other WorkerException is reported to \<^verbatim>\<open>/api/failed_task\<close> with
  its text and \<open>alive\<close> is left as it was; any other exception is reported to
  \<^verbatim>\<open>/api/failed_task\<close> with a message made of the name of its type, the file and line
  of the last frame at the head of its traceback that lies in \<^verbatim>\<open>worker.py\<close> or
  \<^verbatim>\<open>games.py\<close> (the first frame if it lies in neither) and the worker's version 286,
  and \<open>alive\<close> becomes false. What follows the report is the handling of the PGN file.
\<close>

theorem report_by_exception_kind:
  assumes "version_check env = Some True" and "request env = Task r t" and "log_fields r"
  shows
    "(games env = Raised (FatalException m) \<longrightarrow>
        fetch_and_handle_task remote env cs =
          (Inr False, cs\<lparr>run := None, task_id := None, alive := False\<rparr>,
           Post (remote @ ''/api/failed_task'')
             \<lparr>p_run_id = run_id r, p_task_id = t, p_message = Some m, p_pgn = None\<rparr>
           # upload_pgn remote r t
               \<lparr>p_run_id = run_id r, p_task_id = t, p_message = Some m, p_pgn = None\<rparr> env))
     \<and> (games env = Raised (RunException m) \<longrightarrow>
        fetch_and_handle_task remote env cs =
          (Inr False, cs\<lparr>run := None, task_id := None\<rparr>,
           Post (remote @ ''/api/stop_run'')
             \<lparr>p_run_id = run_id r, p_task_id = t, p_message = Some m, p_pgn = None\<rparr>
           # upload_pgn remote r t
               \<lparr>p_run_id = run_id r, p_task_id = t, p_message = Some m, p_pgn = None\<rparr> env))
     \<and> (games env = Raised (WorkerException m) \<longrightarrow>
        fetch_and_handle_task remote env cs =
          (Inr False, cs\<lparr>run := None, task_id := None\<rparr>,
           Post (remote @ ''/api/failed_task'')
             \<lparr>p_run_id = run_id r, p_task_id = t, p_message = Some m, p_pgn = None\<rparr>
           # upload_pgn remote r t
               \<lparr>p_run_id = run_id r, p_task_id = t, p_message = Some m, p_pgn = None\<rparr> env)
        \<and> alive (fst (snd (fetch_and_handle_task remote env cs))) = alive cs)
     \<and> (games env = Raised (OtherException ty first later detail) \<longrightarrow>
        (let fr = reported_frame [''worker.py'', ''games.py''] first later;
             msg = ''Exception '' @ ty @ '' at '' @ fst fr @ '':'' @ str_int (int (snd fr))
                    @ '' WorkerVersion: 286''
         in contains ty msg
            \<and> contains (fst fr @ '':'' @ str_int (int (snd fr))) msg
            \<and> contains ''WorkerVersion: 286'' msg
            \<and> fetch_and_handle_task remote env cs =
                (Inr False, cs\<lparr>run := None, task_id := None, alive := False\<rparr>,
                 Post (remote @ ''/api/failed_task'')
                   \<lparr>p_run_id = run_id r, p_task_id = t, p_message = Some msg, p_pgn = None\<rparr>
                 # upload_pgn remote r t
                     \<lparr>p_run_id = run_id r, p_task_id = t, p_message = Some msg, p_pgn = None\<rparr>
                     env)))"
proof (intro conjI impI)
  assume "games env = Raised (FatalException m)"
  then show "fetch_and_handle_task remote env cs =
          (Inr False, cs\<lparr>run := None, task_id := None, alive := False\<rparr>,
           Post (remote @ ''/api/failed_task'')
             \<lparr>p_run_id = run_id r, p_task_id = t, p_message = Some m, p_pgn = None\<rparr>
           # upload_pgn remote r t
               \<lparr>p_run_id = run_id r, p_task_id = t, p_message = Some m, p_pgn = None\<rparr> env)"
    by (simp add: task_started [OF assms] task_payload_def)
next
  assume "games env = Raised (RunException m)"
  then show "fetch_and_handle_task remote env cs =
          (Inr False, cs\<lparr>run := None, task_id := None\<rparr>,
           Post (remote @ ''/api/stop_run'')
             \<lparr>p_run_id = run_id r, p_task_id = t, p_message = Some m, p_pgn = None\<rparr>
           # upload_pgn remote r t
               \<lparr>p_run_id = run_id r, p_task_id = t, p_message = Some m, p_pgn = None\<rparr> env)"
    by (simp add: task_started [OF assms] task_payload_def)
next
  assume w: "games env = Raised (WorkerException m)"
  then show "fetch_and_handle_task remote env cs =
          (Inr False, cs\<lparr>run := None, task_id := None\<rparr>,
           Post (remote @ ''/api/failed_task'')
             \<lparr>p_run_id = run_id r, p_task_id = t, p_message = Some m, p_pgn = None\<rparr>
           # upload_pgn remote r t
               \<lparr>p_run_id = run_id r, p_task_id = t, p_message = Some m, p_pgn = None\<rparr> env)"
    by (simp add: task_started [OF assms] task_payload_def)
  from w show "alive (fst (snd (fetch_and_handle_task remote env cs))) = alive cs"
    by (simp add: task_started [OF assms])
next
  assume o: "games env = Raised (OtherException ty first later detail)"
  define fr where "fr = reported_frame [''worker.py'', ''games.py''] first later"
  define msg where "msg = ''Exception '' @ ty @ '' at '' @ fst fr @ '':'' @ str_int (int (snd fr))
                    @ '' WorkerVersion: 286''"
  have m: "msg = exception_message ty (fst fr) (snd fr)"
    by (simp add: msg_def exception_message_def str_worker_version)
  have g: "get_exception [''worker.py'', ''games.py''] ty first later = msg"
    unfolding m fr_def by (rule get_exception_frame)
  have c: "contains ty msg" "contains (fst fr @ '':'' @ str_int (int (snd fr))) msg"
    "contains ''WorkerVersion: 286'' msg"
    using exception_message_contains [where ty = ty and filename = "fst fr" and lineno = "snd fr"]
    by (simp_all add: m str_worker_version)
  have f: "fetch_and_handle_task remote env cs =
                (Inr False, cs\<lparr>run := None, task_id := None, alive := False\<rparr>,
                 Post (remote @ ''/api/failed_task'')
                   \<lparr>p_run_id = run_id r, p_task_id = t, p_message = Some msg, p_pgn = None\<rparr>
                 # upload_pgn remote r t
                     \<lparr>p_run_id = run_id r, p_task_id = t, p_message = Some msg, p_pgn = None\<rparr>
                     env)"
    using o by (simp add: task_started [OF assms] task_payload_def g)
  from c f
  show "let fr = reported_frame [''worker.py'', ''games.py''] first later;
             msg = ''Exception '' @ ty @ '' at '' @ fst fr @ '':'' @ str_int (int (snd fr))
                    @ '' WorkerVersion: 286''
         in contains ty msg
            \<and> contains (fst fr @ '':'' @ str_int (int (snd fr))) msg
            \<and> contains ''WorkerVersion: 286'' msg
            \<and> fetch_and_handle_task remote env cs =
                (Inr False, cs\<lparr>run := None, task_id := None, alive := False\<rparr>,
                 Post (remote @ ''/api/failed_task'')
                   \<lparr>p_run_id = run_id r, p_task_id = t, p_message = Some msg, p_pgn = None\<rparr>
                 # upload_pgn remote r t
                     \<lparr>p_run_id = run_id r, p_task_id = t, p_message = Some msg, p_pgn = None\<rparr>
                     env)"
    unfolding Let_def fr_def [symmetric] msg_def [symmetric] by blast
qed

lemma example_frame:
  "reported_frame [''worker.py'', ''games.py''] (''worker.py'', 1325) example_trace
   = (''games.py'', 812)"
  by (simp add: reported_frame_def example_trace_def)

lemma str_812: "str_int 812 = ''812''"
  by (simp add: str_int_def dec_digits.simps digit_char_def)

theorem report_by_exception_kind_witness:
  "fetch_and_handle_task ''http://h'' (example_env (Raised (FatalException ''stop'')) None None) busy
     = (Inr False, busy\<lparr>run := None, task_id := None, alive := False\<rparr>,
        [Post ''http://h/api/failed_task''
           \<lparr>p_run_id = ''R1'', p_task_id = 3, p_message = Some ''stop'', p_pgn = None\<rparr>])
   \<and> fetch_and_handle_task ''http://h'' (example_env (Raised (RunException ''both crash'')) None None) busy
     = (Inr False, busy\<lparr>run := None, task_id := None\<rparr>,
        [Post ''http://h/api/stop_run''
           \<lparr>p_run_id = ''R1'', p_task_id = 3, p_message = Some ''both crash'', p_pgn = None\<rparr>])
   \<and> fetch_and_handle_task ''http://h'' (example_env (Raised (WorkerException ''no net'')) None None) busy
     = (Inr False, busy\<lparr>run := None, task_id := None\<rparr>,
        [Post ''http://h/api/failed_task''
           \<lparr>p_run_id = ''R1'', p_task_id = 3, p_message = Some ''no net'', p_pgn = None\<rparr>])
   \<and> fetch_and_handle_task ''http://h''
        (example_env (Raised (OtherException ''KeyError'' (''worker.py'', 1325) example_trace ''x''))
           None None) busy
     = (Inr False, busy\<lparr>run := None, task_id := None, alive := False\<rparr>,
        [Post ''http://h/api/failed_task''
           \<lparr>p_run_id = ''R1'', p_task_id = 3,
            p_message = Some ''Exception KeyError at games.py:812 WorkerVersion: 286'',
            p_pgn = None\<rparr>])"
proof -
  have up: "upload_pgn remote R1 3 p (example_env g None None) = []" for remote p g
    by (simp add: upload_pgn_def example_env_def)
  note w = report_by_exception_kind [OF example_env_simps(1,2) R1_simps(1),
      where content1 = None and crc1 = None and remote = "''http://h''" and cs = busy]
  have 1: "fetch_and_handle_task ''http://h'' (example_env (Raised (FatalException ''stop'')) None None) busy
     = (Inr False, busy\<lparr>run := None, task_id := None, alive := False\<rparr>,
        [Post ''http://h/api/failed_task''
           \<lparr>p_run_id = ''R1'', p_task_id = 3, p_message = Some ''stop'', p_pgn = None\<rparr>])"
    using w [where g1 = "Raised (FatalException ''stop'')" and m = "''stop''"]
    by (simp add: example_env_simps up R1_simps)
  have 2: "fetch_and_handle_task ''http://h'' (example_env (Raised (RunException ''both crash'')) None None) busy
     = (Inr False, busy\<lparr>run := None, task_id := None\<rparr>,
        [Post ''http://h/api/stop_run''
           \<lparr>p_run_id = ''R1'', p_task_id = 3, p_message = Some ''both crash'', p_pgn = None\<rparr>])"
    using w [where g1 = "Raised (RunException ''both crash'')" and m = "''both crash''"]
    by (simp add: example_env_simps up R1_simps)
  have 3: "fetch_and_handle_task ''http://h'' (example_env (Raised (WorkerException ''no net'')) None None) busy
     = (Inr False, busy\<lparr>run := None, task_id := None\<rparr>,
        [Post ''http://h/api/failed_task''
           \<lparr>p_run_id = ''R1'', p_task_id = 3, p_message = Some ''no net'', p_pgn = None\<rparr>])"
    using w [where g1 = "Raised (WorkerException ''no net'')" and m = "''no net''"]
    by (simp add: example_env_simps up R1_simps)
  have 4: "fetch_and_handle_task ''http://h''
        (example_env (Raised (OtherException ''KeyError'' (''worker.py'', 1325) example_trace ''x''))
           None None) busy
     = (Inr False, busy\<lparr>run := None, task_id := None, alive := False\<rparr>,
        [Post ''http://h/api/failed_task''
           \<lparr>p_run_id = ''R1'', p_task_id = 3,
            p_message = Some ''Exception KeyError at games.py:812 WorkerVersion: 286'',
            p_pgn = None\<rparr>])"
    using w [where g1 = "Raised (OtherException ''KeyError'' (''worker.py'', 1325) example_trace ''x'')"
        and ty = "''KeyError''" and first = "(''worker.py'', 1325)" and later = example_trace
        and detail = "''x''"]
    by (simp add: example_env_simps up R1_simps example_frame str_812 Let_def)
  from 1 2 3 4 show ?thesis by blast
qed

subsection \<open>C4: the upload of the PGN file\<close>

lemma digit_char_inj:
  assumes "a < 16" "b < 16" "digit_char a = digit_char b"
  shows "a = b"
proof -
  have d: "distinct ''0123456789abcdef''" by simp
  have l: "length ''0123456789abcdef'' = 16" by simp
  from assms show ?thesis
    unfolding digit_char_def using nth_eq_iff_index_eq [OF d, of a b] l by simp
qed

lemma hex_digits_not_Nil: "hex_digits n \<noteq> []"
  by (subst hex_digits.simps) simp

lemma hex_digits_last: "last (hex_digits n) = digit_char (n mod 16)"
  by (subst hex_digits.simps) simp

lemma hex_digits_butlast:
  "butlast (hex_digits n) = (if n < 16 then [] else hex_digits (n div 16))"
  by (subst hex_digits.simps) simp

lemma hex_digits_inj: "hex_digits a = hex_digits b \<Longrightarrow> a = b"
proof (induction a arbitrary: b rule: less_induct)
  case (less a)
  from less.prems have l: "digit_char (a mod 16) = digit_char (b mod 16)"
    using hex_digits_last by metis
  then have m: "a mod 16 = b mod 16"
    using digit_char_inj [of "a mod 16" "b mod 16"] by simp
  from less.prems have bl: "butlast (hex_digits a) = butlast (hex_digits b)" by simp
  show ?case
  proof (cases "a < 16")
    case True
    with bl have "b < 16"
      using hex_digits_not_Nil [of "b div 16"] by (auto simp: hex_digits_butlast split: if_splits)
    with True m show ?thesis by simp
  next
    case False
    with bl have b: "\<not> b < 16"
      using hex_digits_not_Nil [of "a div 16"] by (auto simp: hex_digits_butlast split: if_splits)
    with False bl have "hex_digits (a div 16) = hex_digits (b div 16)"
      by (simp add: hex_digits_butlast)
    moreover from False have "a div 16 < a" by simp
    ultimately have "a div 16 = b div 16" using less.IH by blast
    with m show ?thesis
      by (metis div_mult_mod_eq)
  qed
qed

lemma hex_inj: "hex a = hex b \<longleftrightarrow> a = b"
  using hex_digits_inj by (auto simp: hex_def)

lemma crc32_empty: "crc32 [] = 0"
  by (simp add: crc32_def)

lemma hex_zero: "hex 0 = ''0x0''"
  by (simp add: hex_def hex_digits.simps digit_char_def)

lemma eight: "(8::nat) = Suc (Suc (Suc (Suc (Suc (Suc (Suc (Suc 0)))))))"
  by simp

lemma crc_byte_unfold:
  "crc_byte b c =
     crc_bit (crc_bit (crc_bit (crc_bit (crc_bit (crc_bit (crc_bit (crc_bit (c XOR ucast b))))))))"
  by (simp add: crc_byte_def eight)

lemma crc32_a: "crc32 [0x61] = 3904355907"
  by (simp add: crc32_def crc_byte_unfold crc_bit_def)

lemma hex_crc32_a: "hex 3904355907 = ''0xe8b7be43''"
  by (simp add: hex_def hex_digits.simps digit_char_def)

lemma crc32_ff_a: "crc32 [0xFF, 0x61] = 3897081411"
  by (simp add: crc32_def crc_byte_unfold crc_bit_def)

lemma hex_crc32_ff_a: "hex 3897081411 = ''0xe848be43''"
  by (simp add: hex_def hex_digits.simps digit_char_def)

lemma digit_char_no_slash: "d < 16 \<Longrightarrow> digit_char d \<noteq> CHR ''/''"
proof -
  assume "d < 16"
  then have "digit_char d \<in> set ''0123456789abcdef''"
    unfolding digit_char_def by (intro nth_mem) simp
  then show ?thesis by auto
qed

lemma dec_digits_no_slash: "CHR ''/'' \<notin> set (dec_digits n)"
proof (induction n rule: dec_digits.induct)
  case (1 n)
  show ?case
  proof (cases "n < 10")
    case True
    then have "digit_char n \<noteq> CHR ''/''"
      by (intro digit_char_no_slash) simp
    with True show ?thesis
      by (subst dec_digits.simps) auto
  next
    case False
    have "n mod 10 < 16"
      using mod_less_divisor [of 10 n] by linarith
    then have "digit_char (n mod 10) \<noteq> CHR ''/''"
      by (rule digit_char_no_slash)
    with False "1.IH" show ?thesis
      by (subst dec_digits.simps) auto
  qed
qed

lemma str_int_no_slash: "CHR ''/'' \<notin> set (str_int i)"
  by (simp add: str_int_def dec_digits_no_slash)

lemma basename_no_slash:
  assumes "CHR ''/'' \<notin> set p"
  shows "basename p = p"
proof -
  have "\<forall>c \<in> set (rev p). c \<noteq> CHR ''/''"
    using assms by auto
  then have whole: "takeWhile (\<lambda>c. c \<noteq> CHR ''/'') (rev p) = rev p"
    by (rule takeWhile_eq_all_conv [THEN iffD2])
  show ?thesis
    unfolding basename_def whole by simp
qed

lemma gzip_fname_pgn:
  assumes "CHR ''/'' \<notin> set stem"
  shows "gzip_fname (stem @ ''.pgn.gz'') = stem @ ''.pgn''"
proof -
  have "CHR ''/'' \<notin> set (stem @ ''.pgn.gz'')"
    using assms by simp
  then have "basename (stem @ ''.pgn.gz'') = stem @ ''.pgn.gz''"
    by (rule basename_no_slash)
  then show ?thesis
    by (simp add: gzip_fname_def)
qed

lemma member_name_pgn:
  "CHR ''/'' \<notin> set rid \<Longrightarrow>
     gzip_fname (rid @ ''-'' @ str_int t @ ''.pgn.gz'') = rid @ ''-'' @ str_int t @ ''.pgn''"
  using gzip_fname_pgn [of "rid @ ''-'' @ str_int t"] str_int_no_slash [of t] by simp

lemma member_name: "run_id R1 = ''R1''" "str_int 3 = ''3''"
  by (simp_all add: R1_def str_int_def dec_digits.simps digit_char_def)

lemma utf8_ignore_ascii: "\<forall>b \<in> set bs. b \<le> 0x7F \<Longrightarrow> utf8_ignore bs = bs"
proof (induction bs)
  case Nil
  then show ?case by simp
next
  case (Cons b bs)
  then have "utf8_len (b # bs) = 1"
    by (simp add: utf8_len.simps)
  with Cons show ?case
    by (simp add: utf8_ignore.simps(2))
qed

text \<open>
  Some values of the two library functions: an incomplete sequence at the end, a
  surrogate, an overlong form and a sequence cut by an ASCII byte are dropped, a
  sequence of four bytes is kept; the name in the stream is a base name.
\<close>

lemma utf8_ignore_examples:
  "utf8_ignore [0x61, 0xC3, 0xA9, 0xE2, 0x82] = [0x61, 0xC3, 0xA9]"
  "utf8_ignore [0xED, 0xA0, 0x80] = []"
  "utf8_ignore [0xC0, 0x80, 0x62] = [0x62]"
  "utf8_ignore [0xF0, 0x9F, 0x98, 0x80] = [0xF0, 0x9F, 0x98, 0x80]"
  "utf8_ignore [0xE2, 0x82, 0x61] = [0x61]"
  by (simp_all add: utf8_ignore.simps utf8_len.simps continuation_def)

lemma gzip_fname_examples:
  "gzip_fname ''R1-3.pgn.gz'' = ''R1-3.pgn''"
  "gzip_fname ''a/b-3.pgn.gz'' = ''b-3.pgn''"
  "gzip_fname ''R1-3.pgn'' = ''R1-3.pgn''"
  by (simp_all add: gzip_fname_def basename_def)

lemma handle_run_api:
  "handle_run g c = (ok, m, api, c') \<Longrightarrow> api = ''/api/failed_task'' \<or> api = ''/api/stop_run''"
  by (cases g; cases "case g of Raised e \<Rightarrow> e | _ \<Rightarrow> undefined")
     (auto simp: on_sigint_def split: exn.splits)

lemma uploaded_append: "uploaded remote (xs @ ys) = uploaded remote xs @ uploaded remote ys"
  by (simp add: uploaded_def)

lemma effects_split:
  assumes "version_check env = Some True" and "request env = Task r t" and "log_fields r"
  shows "\<exists>rep m. snd (snd (fetch_and_handle_task remote env cs))
                   = rep @ upload_pgn remote r t (task_payload r t m) env
           \<and> uploaded remote rep = [] \<and> (\<forall>f. Unlink f \<notin> set rep)"
proof -
  obtain ok m api c' where h: "handle_run (games env) (cs\<lparr>run := Some r, task_id := Some t\<rparr>) = (ok, m, api, c')"
    by (metis prod_cases4)
  define rep where "rep = (if \<not> ok then [Post (remote @ api) (task_payload r t m)] else [])"
  have "snd (snd (fetch_and_handle_task remote env cs)) = rep @ upload_pgn remote r t (task_payload r t m) env"
    by (simp add: task_started [OF assms] h rep_def)
  moreover have "uploaded remote rep = []"
    using handle_run_api [OF h] by (auto simp: rep_def uploaded_def)
  moreover have "\<forall>f. Unlink f \<notin> set rep"
    by (simp add: rep_def)
  ultimately show ?thesis by blast
qed

lemma upload_pgn_present:
  assumes "pgn_name env = Some name" "disk env name = Some content" "content \<noteq> []"
  shows "upload_pgn remote r t p env =
           (if ''spsa'' \<notin> set (args r) \<and> Some (hex (crc32 content)) = pgn_crc env
            then [Post (remote @ ''/api/upload_pgn'')
                    (p\<lparr>p_pgn := Some (gzip_fname (run_id r @ ''-'' @ str_int t @ ''.pgn.gz''),
                                       utf8_ignore content)\<rparr>)]
            else []) @ [Unlink name]"
  using assms by (simp add: upload_pgn_def)

lemma upload_pgn_absent:
  assumes "pgn_name env = None \<or> (\<exists>name. pgn_name env = Some name
             \<and> (disk env name = None \<or> disk env name = Some []))"
  shows "upload_pgn remote r t p env = []"
  using assms by (auto simp: upload_pgn_def)

text \<open>
  C4, as stated, fails in three places. An empty PGN file whose recorded checksum is
  the CRC-32 of its (no) bytes is neither uploaded nor deleted: \<^verbatim>\<open>fetch_and_handle_task\<close>
  returns before it computes any checksum. The name stored in the gzip stream is
  \<^verbatim>\<open>R1-3.pgn\<close>, not \<^verbatim>\<open>R1-3.pgn.gz\<close>: \<^verbatim>\<open>gzip.GzipFile\<close> drops a final \<^verbatim>\<open>.gz\<close>. And what
  is compressed is not the file but its bytes decoded as UTF-8 with errors ignored and
  encoded again: of the file \<open>FF 61\<close>, whose checksum matches, only \<open>61\<close> is uploaded.
\<close>

theorem upload_pgn_deviations:
  "hex (crc32 []) = ''0x0''
   \<and> fetch_and_handle_task ''http://h'' (example_env Finished (Some []) (Some ''0x0''))
        (initial_state 0)
      = (Inr True, initial_state 0, [])
   \<and> hex (crc32 [0xFF, 0x61]) = ''0xe848be43''
   \<and> fetch_and_handle_task ''http://h''
        (example_env Finished (Some [0xFF, 0x61]) (Some ''0xe848be43'')) (initial_state 0)
      = (Inr True, initial_state 0,
         [Post ''http://h/api/upload_pgn''
            \<lparr>p_run_id = ''R1'', p_task_id = 3, p_message = Some [],
             p_pgn = Some (''R1-3.pgn'', [0x61])\<rparr>,
          Unlink ''testing/R1-3.pgn''])"
proof -
  have 1: "hex (crc32 []) = ''0x0''"
    by (simp add: crc32_empty hex_zero)
  have 2: "fetch_and_handle_task ''http://h'' (example_env Finished (Some []) (Some ''0x0''))
        (initial_state 0) = (Inr True, initial_state 0, [])"
    by (simp add: task_started [OF example_env_simps(1,2) R1_simps(1)] example_env_simps
        upload_pgn_def initial_state_def)
  have 3: "hex (crc32 [0xFF, 0x61]) = ''0xe848be43''"
    by (simp only: crc32_ff_a hex_crc32_ff_a)
  have n: "gzip_fname ''R1-3.pgn.gz'' = ''R1-3.pgn''"
    by (simp add: gzip_fname_def basename_def)
  have u: "utf8_ignore [0xFF, 0x61] = [0x61]"
    by (simp add: utf8_ignore.simps utf8_len.simps)
  have 4: "fetch_and_handle_task ''http://h''
        (example_env Finished (Some [0xFF, 0x61]) (Some ''0xe848be43'')) (initial_state 0)
      = (Inr True, initial_state 0,
         [Post ''http://h/api/upload_pgn''
            \<lparr>p_run_id = ''R1'', p_task_id = 3, p_message = Some [],
             p_pgn = Some (''R1-3.pgn'', [0x61])\<rparr>,
          Unlink ''testing/R1-3.pgn''])"
    by (simp add: task_started [OF example_env_simps(1,2) R1_simps(1)] example_env_simps
        upload_pgn_present [where name = "''testing/R1-3.pgn''" and content = "[0xFF, 0x61]"]
        3 n u R1_simps member_name task_payload_def initial_state_def)
  from 1 2 3 4 show ?thesis by blast
qed

text \<open>
  C4, amended. After a task that was handed out, if \<^verbatim>\<open>run_games\<close> recorded a PGN file
  that exists and is not empty, then there is a request to \<^verbatim>\<open>/api/upload_pgn\<close> if and
  only if the run is not SPSA and \<^verbatim>\<open>hex\<close> of the CRC-32 of the file's bytes equals the
  recorded checksum (for a checksum recorded as \<^verbatim>\<open>hex(e)\<close>: if and only if the CRC-32
  is \<open>e\<close>). The request carries the identifiers of the run and of the task and a gzip
  stream whose header names the file \<^verbatim>\<open>{run_id}-{task_id}.pgn.gz\<close> as
  \<^verbatim>\<open>gzip.GzipFile\<close> stores it, which is \<^verbatim>\<open>{run_id}-{task_id}.pgn\<close> when the run's
  identifier has no \<open>/\<close>, and whose content is the file's bytes decoded as UTF-8 with
  errors ignored and encoded again, which are the file's bytes when they are ASCII.
  The last thing done is to delete the file, whether or not it was uploaded. If no
  file was recorded, or it does not exist, or it is empty, nothing is uploaded and
  nothing is deleted.
\<close>

theorem upload_iff_crc_matches:
  assumes "version_check env = Some True" and "request env = Task r t" and "log_fields r"
  shows
    "(pgn_name env = Some name \<and> disk env name = Some content \<and> content \<noteq> [] \<longrightarrow>
        map (\<lambda>p. (p_run_id p, p_task_id p, p_pgn p))
          (uploaded remote (snd (snd (fetch_and_handle_task remote env cs)))) =
          (if ''spsa'' \<notin> set (args r) \<and> Some (hex (crc32 content)) = pgn_crc env
           then [(run_id r, t,
                  Some (gzip_fname (run_id r @ ''-'' @ str_int t @ ''.pgn.gz''),
                        utf8_ignore content))]
           else [])
        \<and> last (snd (snd (fetch_and_handle_task remote env cs))) = Unlink name
        \<and> (\<forall>e. pgn_crc env = Some (hex e) \<longrightarrow>
              (Some (hex (crc32 content)) = pgn_crc env \<longleftrightarrow> crc32 content = e)))
     \<and> (pgn_name env = None \<or> (\<exists>name. pgn_name env = Some name
             \<and> (disk env name = None \<or> disk env name = Some [])) \<longrightarrow>
        uploaded remote (snd (snd (fetch_and_handle_task remote env cs))) = []
        \<and> (\<forall>f. Unlink f \<notin> set (snd (snd (fetch_and_handle_task remote env cs)))))
     \<and> (CHR ''/'' \<notin> set (run_id r) \<longrightarrow>
        gzip_fname (run_id r @ ''-'' @ str_int t @ ''.pgn.gz'')
        = run_id r @ ''-'' @ str_int t @ ''.pgn'')
     \<and> ((\<forall>b \<in> set content. b \<le> 0x7F) \<longrightarrow> utf8_ignore content = content)"
proof -
  obtain rep m where e: "snd (snd (fetch_and_handle_task remote env cs))
                   = rep @ upload_pgn remote r t (task_payload r t m) env"
    and u: "uploaded remote rep = []" and d: "\<forall>f. Unlink f \<notin> set rep"
    using effects_split [OF assms] by blast
  have present: "map (\<lambda>p. (p_run_id p, p_task_id p, p_pgn p))
          (uploaded remote (snd (snd (fetch_and_handle_task remote env cs)))) =
          (if ''spsa'' \<notin> set (args r) \<and> Some (hex (crc32 content)) = pgn_crc env
           then [(run_id r, t,
                  Some (gzip_fname (run_id r @ ''-'' @ str_int t @ ''.pgn.gz''),
                        utf8_ignore content))]
           else [])
        \<and> last (snd (snd (fetch_and_handle_task remote env cs))) = Unlink name"
    if "pgn_name env = Some name" "disk env name = Some content" "content \<noteq> []"
    by (simp add: e uploaded_append u upload_pgn_present [OF that])
       (simp add: uploaded_def task_payload_def)
  have absent: "uploaded remote (snd (snd (fetch_and_handle_task remote env cs))) = []
        \<and> (\<forall>f. Unlink f \<notin> set (snd (snd (fetch_and_handle_task remote env cs))))"
    if "pgn_name env = None \<or> (\<exists>name. pgn_name env = Some name
             \<and> (disk env name = None \<or> disk env name = Some []))"
    using d by (simp add: e u upload_pgn_absent [OF that])
  have crc: "\<forall>e. pgn_crc env = Some (hex e) \<longrightarrow>
              (Some (hex (crc32 content)) = pgn_crc env \<longleftrightarrow> crc32 content = e)"
    by (auto simp: hex_inj)
  have name: "CHR ''/'' \<notin> set (run_id r) \<longrightarrow>
        gzip_fname (run_id r @ ''-'' @ str_int t @ ''.pgn.gz'')
        = run_id r @ ''-'' @ str_int t @ ''.pgn''"
    using member_name_pgn by blast
  have ascii: "(\<forall>b \<in> set content. b \<le> 0x7F) \<longrightarrow> utf8_ignore content = content"
    using utf8_ignore_ascii by blast
  from present absent crc name ascii show ?thesis
    by blast
qed

theorem upload_iff_crc_matches_witness:
  "map (\<lambda>p. (p_run_id p, p_task_id p, p_pgn p))
     (uploaded ''http://h'' (snd (snd (fetch_and_handle_task ''http://h''
       (example_env Finished (Some [0x61]) (Some ''0xe8b7be43'')) (initial_state 0)))))
     = [(''R1'', 3, Some (''R1-3.pgn'', [0x61]))]
   \<and> last (snd (snd (fetch_and_handle_task ''http://h''
       (example_env Finished (Some [0x61]) (Some ''0xe8b7be43'')) (initial_state 0))))
     = Unlink ''testing/R1-3.pgn''
   \<and> map (\<lambda>p. (p_run_id p, p_task_id p, p_pgn p))
     (uploaded ''http://h'' (snd (snd (fetch_and_handle_task ''http://h''
       (example_env Finished (Some [0x61]) (Some ''0xaaa'')) (initial_state 0)))))
     = []
   \<and> last (snd (snd (fetch_and_handle_task ''http://h''
       (example_env Finished (Some [0x61]) (Some ''0xaaa'')) (initial_state 0))))
     = Unlink ''testing/R1-3.pgn''
   \<and> uploaded ''http://h'' (snd (snd (fetch_and_handle_task ''http://h''
       (example_env Finished None None) (initial_state 0)))) = []
   \<and> (hex (crc32 [0x61]) = hex 3904355907 \<longleftrightarrow> crc32 [0x61] = 3904355907)"
proof -
  have spsa: "''spsa'' \<notin> set (args R1)"
    by (simp add: R1_def)
  have ne: "[0x61 :: byte] \<noteq> []"
    by simp
  have match: "Some (hex (crc32 [0x61])) = Some ''0xe8b7be43''"
    by (simp only: crc32_a hex_crc32_a)
  have differ: "Some (hex (crc32 [0x61])) \<noteq> Some ''0xaaa''"
    by (simp only: crc32_a hex_crc32_a) simp
  have slash: "CHR ''/'' \<notin> set (run_id R1)"
    by (simp add: R1_def)
  have ascii: "\<forall>b \<in> set [0x61 :: byte]. b \<le> 0x7F"
    by simp
  note w1 = upload_iff_crc_matches [OF example_env_simps(1,2) R1_simps(1),
      where g1 = Finished and content1 = "Some [0x61]" and crc1 = "Some ''0xe8b7be43''"
        and name = "''testing/R1-3.pgn''" and content = "[0x61]"
        and remote = "''http://h''" and cs = "initial_state 0"]
  note w2 = upload_iff_crc_matches [OF example_env_simps(1,2) R1_simps(1),
      where g1 = Finished and content1 = "Some [0x61]" and crc1 = "Some ''0xaaa''"
        and name = "''testing/R1-3.pgn''" and content = "[0x61]"
        and remote = "''http://h''" and cs = "initial_state 0"]
  note w3 = upload_iff_crc_matches [OF example_env_simps(1,2) R1_simps(1),
      where g1 = Finished and content1 = None and crc1 = None
        and remote = "''http://h''" and cs = "initial_state 0"]
  from w1 slash ascii
  have n: "gzip_fname (run_id R1 @ ''-'' @ str_int 3 @ ''.pgn.gz'') = ''R1-3.pgn''"
    "utf8_ignore [0x61] = [0x61]"
    by (simp_all add: member_name)
  have 1: "map (\<lambda>p. (p_run_id p, p_task_id p, p_pgn p))
     (uploaded ''http://h'' (snd (snd (fetch_and_handle_task ''http://h''
       (example_env Finished (Some [0x61]) (Some ''0xe8b7be43'')) (initial_state 0)))))
     = [(''R1'', 3, Some (''R1-3.pgn'', [0x61]))]
   \<and> last (snd (snd (fetch_and_handle_task ''http://h''
       (example_env Finished (Some [0x61]) (Some ''0xe8b7be43'')) (initial_state 0))))
     = Unlink ''testing/R1-3.pgn''"
    using w1 spsa ne match n by (simp add: example_env_simps member_name)
  have 2: "map (\<lambda>p. (p_run_id p, p_task_id p, p_pgn p))
     (uploaded ''http://h'' (snd (snd (fetch_and_handle_task ''http://h''
       (example_env Finished (Some [0x61]) (Some ''0xaaa'')) (initial_state 0)))))
     = []
   \<and> last (snd (snd (fetch_and_handle_task ''http://h''
       (example_env Finished (Some [0x61]) (Some ''0xaaa'')) (initial_state 0))))
     = Unlink ''testing/R1-3.pgn''"
    using w2 spsa ne differ by (simp add: example_env_simps member_name)
  have 3: "uploaded ''http://h'' (snd (snd (fetch_and_handle_task ''http://h''
       (example_env Finished None None) (initial_state 0)))) = []"
    using w3 by (simp add: example_env_simps)
  note w4 = upload_iff_crc_matches [OF example_env_simps(1,2) R1_simps(1),
      where g1 = Finished and content1 = "Some [0x61]"
        and crc1 = "Some (hex 3904355907)"
        and name = "''testing/R1-3.pgn''" and content = "[0x61]"
        and remote = "''http://h''" and cs = "initial_state 0"]
  have 4: "hex (crc32 [0x61]) = hex 3904355907 \<longleftrightarrow> crc32 [0x61] = 3904355907"
    using w4 ne by (simp add: example_env_simps)
  from 1 2 3 4 show ?thesis by blast
qed

subsection \<open>The start of the worker: shared facts\<close>

lemma worker_at_remote_check:
  assumes "reaches_remote_check st"
  shows "worker st its =
     (case verify_remote_sri (hashes st) (downloaded st) of
        Inl e \<Rightarrow> (Uncaught e, [])
      | Inr None \<Rightarrow> (Return 1, [])
      | Inr (Some unmodified) \<Rightarrow>
          (let (s, done, how) =
                 main_loop (fleet_of st) (remote_of st) its (loop_start (started st))
           in case how of
                Going \<Rightarrow> (Running, done)
              | Escaped e \<Rightarrow> (Uncaught e, done)
              | Ended \<Rightarrow>
                  (let (e, done') = shutdown (lock st) (can_unlink st) s
                   in (e, done @ done'))))"
  using assms
  by (auto simp: reaches_remote_check_def worker_def fleet_of_def remote_of_def
      split: setup_result.splits sum.splits option.splits)

subsection \<open>C6: verification against the remote manifest\<close>

text \<open>
  C6: when the downloaded manifest's \<^verbatim>\<open>__version\<close> (\<open>-1\<close> if it has none) differs from
  \<open>WORKER_VERSION\<close>, \<^verbatim>\<open>verify_remote_sri\<close> returns \<^verbatim>\<open>True\<close> whatever the hashes of the
  local files are, even if they cannot be computed. When the versions match and the
  local manifest could be generated, it returns \<^verbatim>\<open>False\<close> exactly if some entry of the
  downloaded manifest is absent from the local one or differs from it. When the
  download fails it returns \<^verbatim>\<open>None\<close>, and a worker that got as far as this check then
  returns 1.
\<close>

theorem verify_remote_sri_cases:
  "(dl = Some (JObj d)
      \<and> (case map_of d ''__version'' of None \<Rightarrow> JNum (- 1) | Some v \<Rightarrow> v)
          \<noteq> JNum (real_of_int WORKER_VERSION)
    \<longrightarrow> (\<forall>text_hash. verify_remote_sri text_hash dl = Inr (Some True)))
   \<and> (dl = Some (JObj d)
      \<and> map_of d ''__version'' = Some (JNum (real_of_int WORKER_VERSION))
      \<and> generate_sri th = Some sri
    \<longrightarrow> verify_remote_sri th dl
          = Inr (Some (\<not> (\<exists>(k, v) \<in> set d. map_of sri k \<noteq> Some v))))
   \<and> verify_remote_sri th None = Inr None
   \<and> (reaches_remote_check st \<and> downloaded st = None
    \<longrightarrow> worker st its = (Return 1, []) \<and> exit_code (fst (worker st its)) = Some 1)"
proof (intro conjI impI allI)
  fix text_hash
  assume "dl = Some (JObj d)
      \<and> (case map_of d ''__version'' of None \<Rightarrow> JNum (- 1) | Some v \<Rightarrow> v)
          \<noteq> JNum (real_of_int WORKER_VERSION)"
  then show "verify_remote_sri text_hash dl = Inr (Some True)"
    by (simp add: verify_remote_sri_def)
next
  assume a: "dl = Some (JObj d)
      \<and> map_of d ''__version'' = Some (JNum (real_of_int WORKER_VERSION))
      \<and> generate_sri th = Some sri"
  have "tainted_by (Some sri) d False = Inr (\<exists>(k, v) \<in> set d. map_of sri k \<noteq> Some v)"
    by (simp add: tainted_by_Some)
  with a show "verify_remote_sri th dl
          = Inr (Some (\<not> (\<exists>(k, v) \<in> set d. map_of sri k \<noteq> Some v)))"
    by (simp add: verify_remote_sri_def)
next
  show "verify_remote_sri th None = Inr None"
    by (simp add: verify_remote_sri_def)
next
  assume a: "reaches_remote_check st \<and> downloaded st = None"
  then have "verify_remote_sri (hashes st) (downloaded st) = Inr None"
    by (simp add: verify_remote_sri_def)
  with a show w: "worker st its = (Return 1, [])"
    by (simp add: worker_at_remote_check)
  then show "exit_code (fst (worker st its)) = Some 1"
    by simp
qed

lemma generate_disk_hashes:
  "generate_sri disk_hashes = Some (remote_manifest ''h2'')"
  by (simp add: generate_sri_def FILE_LIST_def disk_hashes_def remote_manifest_def WORKER_VERSION_def)

theorem verify_remote_sri_cases_witness:
  "verify_remote_sri Map.empty (Some (JObj [(''__version'', JNum 285), (''worker.py'', JStr ''x'')]))
     = Inr (Some True)
   \<and> verify_remote_sri disk_hashes (Some (JObj (remote_manifest ''h2''))) = Inr (Some True)
   \<and> verify_remote_sri disk_hashes (Some (JObj (remote_manifest ''other''))) = Inr (Some False)
   \<and> worker (good_start None) [] = (Return 1, [])"
proof -
  have v: "(case map_of [(''__version'', JNum 285), (''worker.py'', JStr ''x'')] ''__version'' of
              None \<Rightarrow> JNum (- 1) | Some v \<Rightarrow> v) \<noteq> JNum (real_of_int WORKER_VERSION)"
    by (simp add: WORKER_VERSION_def)
  have m: "map_of (remote_manifest h) ''__version'' = Some (JNum (real_of_int WORKER_VERSION))" for h
    by (simp add: remote_manifest_def WORKER_VERSION_def)
  have same: "\<not> (\<exists>(k, v) \<in> set (remote_manifest ''h2''). map_of (remote_manifest ''h2'') k \<noteq> Some v)"
    by (simp add: remote_manifest_def)
  have other: "\<exists>(k, v) \<in> set (remote_manifest ''other''). map_of (remote_manifest ''h2'') k \<noteq> Some v"
    by (simp add: remote_manifest_def)
  have r: "reaches_remote_check (good_start None)" "downloaded (good_start None) = None"
    by (simp_all add: reaches_remote_check_def good_start_def)
  note w1 = verify_remote_sri_cases [where dl = "Some (JObj [(''__version'', JNum 285), (''worker.py'', JStr ''x'')])"
      and d = "[(''__version'', JNum 285), (''worker.py'', JStr ''x'')]"
      and st = "good_start None" and its = "[]"]
  note w2 = verify_remote_sri_cases [where dl = "Some (JObj (remote_manifest ''h2''))"
      and d = "remote_manifest ''h2''" and th = disk_hashes and sri = "remote_manifest ''h2''"]
  note w3 = verify_remote_sri_cases [where dl = "Some (JObj (remote_manifest ''other''))"
      and d = "remote_manifest ''other''" and th = disk_hashes and sri = "remote_manifest ''h2''"]
  from w1 v r have 1: "verify_remote_sri Map.empty (Some (JObj [(''__version'', JNum 285), (''worker.py'', JStr ''x'')]))
     = Inr (Some True)" "worker (good_start None) [] = (Return 1, [])"
    by blast+
  from w2 m generate_disk_hashes same
  have 2: "verify_remote_sri disk_hashes (Some (JObj (remote_manifest ''h2''))) = Inr (Some True)"
    by simp
  from w3 m generate_disk_hashes other
  have 3: "verify_remote_sri disk_hashes (Some (JObj (remote_manifest ''other''))) = Inr (Some False)"
    by simp
  from 1 2 3 show ?thesis by blast
qed

text \<open>
  Beside the claim: when the versions match but no local manifest could be generated,
  the comparison raises TypeError (\<^verbatim>\<open>k not in sri\<close> with \<^verbatim>\<open>sri = None\<close>).
\<close>

lemma verify_remote_sri_without_local:
  assumes "generate_sri th = None"
    and "map_of d ''__version'' = Some (JNum (real_of_int WORKER_VERSION))"
  shows "verify_remote_sri th (Some (JObj d)) = Inl TypeError"
proof -
  from assms(2) have "d \<noteq> []" by auto
  then show ?thesis
    using assms by (simp add: verify_remote_sri_def tainted_by_None)
qed

subsection \<open>The main loop: shared facts\<close>

lemma fetch_no_sleep: "sleeps (snd (snd (fetch_and_handle_task remote env cs))) = []"
  by (auto simp: sleeps_def fetch_and_handle_task_def upload_pgn_def Let_def
      split: task_reply.splits option.splits prod.splits)

lemma handle_run_alive:
  "handle_run g c = (ok, m, api, c') \<Longrightarrow> (alive c' \<longrightarrow> alive c) \<and> (ok \<longrightarrow> alive c' = alive c)"
  by (cases g; cases "case g of Raised e \<Rightarrow> e | _ \<Rightarrow> undefined")
     (auto simp: on_sigint_def split: exn.splits)

lemma fetch_alive:
  "fetch_and_handle_task remote env cs = (outcome, cs', done) \<Longrightarrow>
     (alive cs' \<longrightarrow> alive cs) \<and> (outcome = Inr True \<longrightarrow> alive cs' = alive cs)"
  by (auto simp: fetch_and_handle_task_def Let_def
      split: task_reply.splits prod.splits if_splits dest: handle_run_alive)

lemma iteration_alive:
  "alive (shared (fst (iteration_body fleet remote it s))) \<Longrightarrow> alive (shared s)"
  by (auto simp: iteration_body_def on_sigint_def Let_def
      split: prod.splits if_splits option.splits sum.splits dest: fetch_alive)

lemma main_loop_Cons:
  "main_loop fleet remote (it # its) s =
     (if \<not> alive (shared s) then (s, [], Ended)
      else case snd (snd (iteration_body fleet remote it s)) of
             Leave \<Rightarrow> (fst (iteration_body fleet remote it s),
                        fst (snd (iteration_body fleet remote it s)), Ended)
           | Escape e \<Rightarrow> (fst (iteration_body fleet remote it s),
                           fst (snd (iteration_body fleet remote it s)), Escaped e)
           | Next \<Rightarrow>
               (fst (main_loop fleet remote its (fst (iteration_body fleet remote it s))),
                fst (snd (iteration_body fleet remote it s))
                  @ fst (snd (main_loop fleet remote its (fst (iteration_body fleet remote it s)))),
                snd (snd (main_loop fleet remote its (fst (iteration_body fleet remote it s))))))"
  by (simp add: case_prod_unfold Let_def split: flow.splits)

lemma start_alive: "alive (shared (loop_start now))"
  by (simp add: loop_start_def initial_state_def)


lemma waiting_fails:
  "fetch_and_handle_task remote (task waiting) cs = (Inr False, cs, [])"
  by (simp add: fetch_and_handle_task_def waiting_def example_env_def)

lemma waiting_body:
  "alive (shared s) \<Longrightarrow>
   iteration_body False remote waiting s =
     (s\<lparr>shared := shared s, delay := min MAX_RETRY_TIME (delay s * 2)\<rparr>, [Sleep (delay s)], Next)"
  by (simp add: iteration_body_def waiting_fails) (simp add: waiting_def)

lemma succeeding_ok:
  "fetch_and_handle_task remote (task succeeding) cs
   = (Inr True, cs\<lparr>run := None, task_id := None\<rparr>, [])"
  by (simp add: task_started [OF _ _ R1_simps(1)] succeeding_def example_env_def upload_pgn_def)

subsection \<open>C8: \<open>alive\<close> only ever goes from true to false\<close>

lemma step_alive:
  "alive (shared (step fleet remote e s)) \<Longrightarrow> alive (shared s)"
  by (cases e) (auto simp: on_sigint_def body_alive dest: iteration_alive)

lemma states_hd: "\<exists>rest. states fleet remote es s = s # rest"
  by (cases es) auto

lemma states_flags:
  "rises (map (alive \<circ> shared) (states fleet remote es s)) = 0
   \<and> falls (map (alive \<circ> shared) (states fleet remote es s))
       \<le> (if alive (shared s) then 1 else 0)"
proof (induction es arbitrary: s)
  case Nil
  then show ?case by simp
next
  case (Cons e es)
  obtain rest where r: "states fleet remote es (step fleet remote e s) = step fleet remote e s # rest"
    using states_hd by blast
  from Cons.IH [of "step fleet remote e s"] step_alive [of fleet remote e s]
  show ?case
    by (auto simp: r split: if_splits)
qed

text \<open>
  C8: the shared flag \<open>alive\<close> is true in the state \<^verbatim>\<open>worker()\<close> creates. No event
  (a signal handled by \<^verbatim>\<open>on_sigint\<close>, a pass of the heartbeat loop, an iteration of the
  main loop) turns a false \<open>alive\<close> into a true one. So along any sequence of such
  events, from any state, \<open>alive\<close> never rises and falls at most once.
\<close>

theorem alive_falls_once:
  "alive (initial_state now)
   \<and> alive (shared (loop_start now))
   \<and> (\<not> alive (shared s) \<longrightarrow> \<not> alive (shared (step fleet remote e s)))
   \<and> rises (map (alive \<circ> shared) (states fleet remote es s)) = 0
   \<and> falls (map (alive \<circ> shared) (states fleet remote es s)) \<le> 1"
proof -
  have "alive (initial_state now)" "alive (shared (loop_start now))"
    by (simp_all add: initial_state_def loop_start_def)
  moreover have "\<not> alive (shared s) \<longrightarrow> \<not> alive (shared (step fleet remote e s))"
    using step_alive by blast
  moreover have "rises (map (alive \<circ> shared) (states fleet remote es s)) = 0"
    using states_flags by blast
  moreover have "falls (map (alive \<circ> shared) (states fleet remote es s)) \<le> 1"
    using states_flags [of fleet remote es s] by (auto split: if_splits)
  ultimately show ?thesis by blast
qed

theorem alive_falls_once_witness:
  "\<not> alive (shared ((loop_start 0)\<lparr>shared := idle\<lparr>alive := False\<rparr>\<rparr>))
   \<and> \<not> alive (shared (step False ''http://h'' (Beat 121 Failed)
                         ((loop_start 0)\<lparr>shared := idle\<lparr>alive := False\<rparr>\<rparr>)))
   \<and> map (alive \<circ> shared) (states False ''http://h'' signal_then_beat (loop_start 0))
       = [True, True, False, False]
   \<and> falls (map (alive \<circ> shared) (states False ''http://h'' signal_then_beat (loop_start 0))) \<le> 1
   \<and> rises (map (alive \<circ> shared) (states False ''http://h'' signal_then_beat (loop_start 0))) = 0"
proof -
  have d: "\<not> alive (shared ((loop_start 0)\<lparr>shared := idle\<lparr>alive := False\<rparr>\<rparr>))"
    by simp
  have t: "map (alive \<circ> shared) (states False ''http://h'' signal_then_beat (loop_start 0))
       = [True, True, False, False]"
    by (simp add: signal_then_beat_def loop_start_def initial_state_def heartbeat_body_def
        on_sigint_def)
  note w1 = alive_falls_once [where s = "(loop_start 0)\<lparr>shared := idle\<lparr>alive := False\<rparr>\<rparr>"
      and fleet = False and remote = "''http://h''" and e = "Beat 121 Failed"]
  note w2 = alive_falls_once [where s = "loop_start 0" and fleet = False
      and remote = "''http://h''" and es = signal_then_beat]
  from w1 w2 d t show ?thesis
    by blast
qed

subsection \<open>C2: the delays of the backoff\<close>

lemma sleeps_append: "sleeps (xs @ ys) = sleeps xs @ sleeps ys"
  by (simp add: sleeps_def)

lemma double_capped:
  "min MAX_RETRY_TIME (min MAX_RETRY_TIME (INITIAL_RETRY_TIME * 2 ^ j) * 2)
   = min MAX_RETRY_TIME (INITIAL_RETRY_TIME * 2 ^ Suc j)"
  by (auto simp: min_def MAX_RETRY_TIME_def INITIAL_RETRY_TIME_def)

lemma failed_iteration:
  assumes "fetch_and_handle_task remote (task it) (shared s) = (Inr False, cs, done)"
    and "alive cs" "\<not> fish_exit_file it" "sleep_signal it = None"
  shows "iteration_body False remote it s =
           (s\<lparr>shared := cs, delay := min MAX_RETRY_TIME (delay s * 2)\<rparr>,
            done @ [Sleep (delay s)], Next)"
  using assms by (simp add: iteration_body_def)

lemma backoff_from:
  assumes "alive (shared s)" "delay s = min MAX_RETRY_TIME (INITIAL_RETRY_TIME * 2 ^ j)"
    "all_fail remote its s"
  shows "sleeps (fst (snd (main_loop False remote its s)))
           = map (\<lambda>k. min MAX_RETRY_TIME (INITIAL_RETRY_TIME * 2 ^ (j + k))) [0..<length its]
         \<and> delay (fst (main_loop False remote its s))
           = min MAX_RETRY_TIME (INITIAL_RETRY_TIME * 2 ^ (j + length its))
         \<and> snd (snd (main_loop False remote its s)) = Going"
  using assms
proof (induction its arbitrary: s j)
  case Nil
  then show ?case by (simp add: sleeps_def)
next
  case (Cons it its)
  obtain ok cs eff where f: "fetch_and_handle_task remote (task it) (shared s) = (ok, cs, eff)"
    by (metis prod_cases3)
  from Cons.prems(3) f have c: "ok = Inr False" "alive cs" "\<not> fish_exit_file it" "sleep_signal it = None"
    and rest: "all_fail remote its (fst (iteration_body False remote it s))"
    by auto
  define s1 where "s1 = s\<lparr>shared := cs, delay := min MAX_RETRY_TIME (delay s * 2)\<rparr>"
  have ib: "iteration_body False remote it s = (s1, eff @ [Sleep (delay s)], Next)"
    using failed_iteration [of remote it s cs eff] f c by (simp add: s1_def)
  have a1: "alive (shared s1)" using c by (simp add: s1_def)
  have d1: "delay s1 = min MAX_RETRY_TIME (INITIAL_RETRY_TIME * 2 ^ Suc j)"
    by (simp add: s1_def Cons.prems(2) double_capped)
  from rest ib have r1: "all_fail remote its s1" by simp
  note ih = Cons.IH [OF a1 d1 r1]
  have nosleep: "sleeps eff = []"
    using fetch_no_sleep [of remote "task it" "shared s"] by (simp add: f)
  have one: "sleeps (Sleep (delay s) # more) = delay s # sleeps more" for more
    by (simp add: sleeps_def)
  have sl: "sleeps ((eff @ [Sleep (delay s)]) @ more) = delay s # sleeps more" for more
    by (simp add: sleeps_append nosleep one)
  have ml: "main_loop False remote (it # its) s =
      (fst (main_loop False remote its s1),
       (eff @ [Sleep (delay s)]) @ fst (snd (main_loop False remote its s1)),
       snd (snd (main_loop False remote its s1)))"
    using Cons.prems(1) by (simp add: main_loop_Cons ib del: main_loop.simps)
  have up: "map f [0..<length (it # its)] = f 0 # map (\<lambda>k. f (Suc k)) [0..<length its]" for f :: "nat \<Rightarrow> int"
    by (simp add: upt_conv_Cons map_Suc_upt [symmetric] o_def del: upt_Suc)
  have "sleeps (fst (snd (main_loop False remote (it # its) s)))
      = delay s # map (\<lambda>k. min MAX_RETRY_TIME (INITIAL_RETRY_TIME * 2 ^ (Suc j + k))) [0..<length its]"
    using ih by (simp add: ml sleeps_append nosleep one del: main_loop.simps)
  also have "\<dots> = map (\<lambda>k. min MAX_RETRY_TIME (INITIAL_RETRY_TIME * 2 ^ (j + k))) [0..<length (it # its)]"
    by (simp only: up) (simp add: Cons.prems(2))
  finally have 1: "sleeps (fst (snd (main_loop False remote (it # its) s)))
      = map (\<lambda>k. min MAX_RETRY_TIME (INITIAL_RETRY_TIME * 2 ^ (j + k))) [0..<length (it # its)]" .
  have 2: "delay (fst (main_loop False remote (it # its) s))
           = min MAX_RETRY_TIME (INITIAL_RETRY_TIME * 2 ^ (j + length (it # its)))"
    using ih by (simp add: ml del: main_loop.simps)
  have 3: "snd (snd (main_loop False remote (it # its) s)) = Going"
    using ih by (simp add: ml del: main_loop.simps)
  from 1 2 3 show ?case by blast
qed

text \<open>
  C2: \<open>INITIAL_RETRY_TIME\<close> is 15 and \<open>MAX_RETRY_TIME\<close> is 900, and the loop starts
  with the delay \<open>INITIAL_RETRY_TIME\<close>. Without fleet mode, from a state whose delay is
  \<open>INITIAL_RETRY_TIME\<close>, a sequence of iterations that all fail and are retried sleeps,
  before the retry after the \<open>k\<close>-th failure, \<open>min(MAX_RETRY_TIME, INITIAL_RETRY_TIME * 2^(k-1))\<close>
  seconds. An iteration whose task succeeds (and that finds no \<^verbatim>\<open>fish.exit\<close>) sets the
  delay back to \<open>INITIAL_RETRY_TIME\<close> and goes on.
\<close>

theorem backoff_delays:
  "INITIAL_RETRY_TIME = 15 \<and> MAX_RETRY_TIME = 900
   \<and> delay (loop_start now) = INITIAL_RETRY_TIME
   \<and> (alive (shared s) \<and> delay s = INITIAL_RETRY_TIME \<and> all_fail remote its s \<longrightarrow>
        sleeps (fst (snd (main_loop False remote its s)))
          = map (\<lambda>k. min MAX_RETRY_TIME (INITIAL_RETRY_TIME * 2 ^ k)) [0..<length its]
        \<and> (\<forall>k. 1 \<le> k \<and> k \<le> length its \<longrightarrow>
              sleeps (fst (snd (main_loop False remote its s))) ! (k - 1)
                = min MAX_RETRY_TIME (INITIAL_RETRY_TIME * 2 ^ (k - 1))))
   \<and> (alive (shared s) \<and> fst (fetch_and_handle_task remote (task it) (shared s)) = Inr True
        \<and> \<not> fish_exit_file it \<longrightarrow>
        delay (fst (iteration_body fleet remote it s)) = INITIAL_RETRY_TIME
        \<and> snd (snd (iteration_body fleet remote it s)) = Next)"
proof -
  have cs0: "INITIAL_RETRY_TIME = 15" "MAX_RETRY_TIME = 900"
    "delay (loop_start now) = INITIAL_RETRY_TIME"
    by (simp_all add: INITIAL_RETRY_TIME_def MAX_RETRY_TIME_def loop_start_def)
  have seq: "sleeps (fst (snd (main_loop False remote its s)))
          = map (\<lambda>k. min MAX_RETRY_TIME (INITIAL_RETRY_TIME * 2 ^ k)) [0..<length its]"
    if "alive (shared s)" "delay s = INITIAL_RETRY_TIME" "all_fail remote its s"
  proof -
    have "delay s = min MAX_RETRY_TIME (INITIAL_RETRY_TIME * 2 ^ 0)"
      using that(2) by (simp add: INITIAL_RETRY_TIME_def MAX_RETRY_TIME_def)
    from backoff_from [OF that(1) this that(3)] show ?thesis by simp
  qed
  have nth: "\<forall>k. 1 \<le> k \<and> k \<le> length its \<longrightarrow>
              sleeps (fst (snd (main_loop False remote its s))) ! (k - 1)
                = min MAX_RETRY_TIME (INITIAL_RETRY_TIME * 2 ^ (k - 1))"
    if "alive (shared s)" "delay s = INITIAL_RETRY_TIME" "all_fail remote its s"
  proof (intro allI impI)
    fix k assume k: "1 \<le> k \<and> k \<le> length its"
    then have "k - 1 < length its" by arith
    then show "sleeps (fst (snd (main_loop False remote its s))) ! (k - 1)
                = min MAX_RETRY_TIME (INITIAL_RETRY_TIME * 2 ^ (k - 1))"
      by (simp add: seq [OF that])
  qed
  have reset: "delay (fst (iteration_body fleet remote it s)) = INITIAL_RETRY_TIME
        \<and> snd (snd (iteration_body fleet remote it s)) = Next"
    if "alive (shared s)" "fst (fetch_and_handle_task remote (task it) (shared s)) = Inr True"
      "\<not> fish_exit_file it"
  proof -
    obtain ok cs eff where f: "fetch_and_handle_task remote (task it) (shared s) = (ok, cs, eff)"
      by (metis prod_cases3)
    with that(2) have ok: "ok = Inr True" by simp
    with fetch_alive [OF f] that(1) have "alive cs" by simp
    with f ok that(3) show ?thesis
      by (simp add: iteration_body_def)
  qed
  from cs0 seq nth reset show ?thesis by blast
qed

lemma three_waits: "all_fail ''http://h'' [waiting, waiting, waiting] (loop_start 0)"
proof -
  have a: "alive (shared (loop_start 0))"
    by (simp add: loop_start_def initial_state_def)
  have w: "\<not> fish_exit_file waiting" "sleep_signal waiting = None"
    by (simp_all add: waiting_def)
  show ?thesis
    using a w by (simp add: waiting_fails waiting_body)
qed

theorem backoff_delays_witness:
  "sleeps (fst (snd (main_loop False ''http://h'' [waiting, waiting, waiting] (loop_start 0))))
     = [15, 30, 60]
   \<and> sleeps (fst (snd (main_loop False ''http://h'' [waiting, waiting, waiting] (loop_start 0)))) ! (3 - 1)
     = min 900 (15 * 2 ^ (3 - 1))
   \<and> delay (fst (iteration_body False ''http://h'' succeeding ((loop_start 0)\<lparr>delay := 900\<rparr>))) = 15"
proof -
  have a: "alive (shared (loop_start 0))" "delay (loop_start 0) = INITIAL_RETRY_TIME"
    "alive (shared ((loop_start 0)\<lparr>delay := 900\<rparr>))"
    by (simp_all add: loop_start_def initial_state_def)
  have s: "fst (fetch_and_handle_task ''http://h'' (task succeeding) (shared ((loop_start 0)\<lparr>delay := 900\<rparr>))) = Inr True"
    "\<not> fish_exit_file succeeding"
    by (simp_all add: succeeding_ok) (simp add: succeeding_def)
  have l: "[0..<length [waiting, waiting, waiting]] = [0, 1, 2]"
    "(1::nat) \<le> 3 \<and> 3 \<le> length [waiting, waiting, waiting]"
    by (simp_all add: upt_rec)
  note w1 = backoff_delays [where s = "loop_start 0" and remote = "''http://h''"
      and its = "[waiting, waiting, waiting]"]
  note w2 = backoff_delays [where s = "(loop_start 0)\<lparr>delay := 900\<rparr>" and remote = "''http://h''"
      and it = succeeding and fleet = False]
  from w1 a three_waits
  have 1: "sleeps (fst (snd (main_loop False ''http://h'' [waiting, waiting, waiting] (loop_start 0))))
          = map (\<lambda>k. min MAX_RETRY_TIME (INITIAL_RETRY_TIME * 2 ^ k)) [0..<length [waiting, waiting, waiting]]"
    and 2: "\<forall>k. 1 \<le> k \<and> k \<le> length [waiting, waiting, waiting] \<longrightarrow>
              sleeps (fst (snd (main_loop False ''http://h'' [waiting, waiting, waiting] (loop_start 0)))) ! (k - 1)
                = min MAX_RETRY_TIME (INITIAL_RETRY_TIME * 2 ^ (k - 1))"
    and c: "INITIAL_RETRY_TIME = 15" "MAX_RETRY_TIME = 900"
    by blast+
  from 1 have e1: "sleeps (fst (snd (main_loop False ''http://h'' [waiting, waiting, waiting] (loop_start 0))))
     = [15, 30, 60]"
    by (simp only: l(1) c) simp
  from 2 l(2) have e2: "sleeps (fst (snd (main_loop False ''http://h'' [waiting, waiting, waiting] (loop_start 0)))) ! (3 - 1)
     = min 900 (15 * 2 ^ (3 - 1))"
    unfolding c by blast
  from w2 a(3) s have "delay (fst (iteration_body False ''http://h'' succeeding ((loop_start 0)\<lparr>delay := 900\<rparr>))) = INITIAL_RETRY_TIME"
    by blast
  with c have 3: "delay (fst (iteration_body False ''http://h'' succeeding ((loop_start 0)\<lparr>delay := 900\<rparr>))) = 15"
    by simp
  from e1 e2 3 show ?thesis by blast
qed

subsection \<open>C9: the exit code\<close>












lemma verified_start_simps:
  "lock verified_start = Acquired" "started verified_start = 0"
  "fleet_of verified_start = False" "remote_of verified_start = ''http://h''"
  "reaches_remote_check verified_start" "can_unlink verified_start"
  "verify_remote_sri (hashes verified_start) (downloaded verified_start) = Inr (Some True)"
proof -
  show "lock verified_start = Acquired" "started verified_start = 0"
    "fleet_of verified_start = False" "remote_of verified_start = ''http://h''"
    "reaches_remote_check verified_start" "can_unlink verified_start"
    by (simp_all add: verified_start_def good_start_def reaches_remote_check_def
        fleet_of_def remote_of_def)
  have "tainted_by (Some (remote_manifest ''h2'')) (remote_manifest ''h2'') False = Inr False"
    by (simp add: remote_manifest_def)
  then show "verify_remote_sri (hashes verified_start) (downloaded verified_start) = Inr (Some True)"
    by (simp add: verified_start_def good_start_def verify_remote_sri_def generate_disk_hashes;
        simp add: remote_manifest_def WORKER_VERSION_def)
qed

lemma fleet_start_simps:
  "lock fleet_start = Acquired" "started fleet_start = 0"
  "fleet_of fleet_start = True" "remote_of fleet_start = ''http://h''"
  "reaches_remote_check fleet_start" "can_unlink fleet_start"
  "verify_remote_sri (hashes fleet_start) (downloaded fleet_start) = Inr (Some True)"
  using verified_start_simps
  by (simp_all add: fleet_start_def reaches_remote_check_def fleet_of_def remote_of_def)


lemma fleet_quits:
  "iteration_body True remote waiting (loop_start 0)
     = ((loop_start 0)\<lparr>shared := (shared (loop_start 0))\<lparr>alive := False\<rparr>\<rparr>, [], Leave)"
  by (simp add: iteration_body_def waiting_fails start_alive;
        simp add: waiting_def)


text \<open>
  Some ends of the worker: a failed iteration in fleet mode, a signal during the run,
  a stop by \<^verbatim>\<open>fish.exit\<close>, a lock held by another worker (also when the help is asked
  for), a reply without \<^verbatim>\<open>task_id\<close>, a \<^verbatim>\<open>fish.exit\<close> that cannot be deleted, and a
  loop that goes on.
\<close>

lemma exit_examples:
  "worker fleet_start [waiting, sentinel_seen] = (Return 1, [Release_lock, Join_heartbeat])"
  "worker verified_start [interrupted, sentinel_seen]
     = (Return 1,
        [Post ''http://h/api/failed_task'' (task_payload R1 3 ''Terminated by signal SIGINT.''),
         Release_lock, Join_heartbeat])"
  "worker verified_start [waiting, sentinel_seen]
     = (Return 0, [Sleep 15, Unlink ''fish.exit'', Release_lock, Join_heartbeat])"
  "worker (verified_start\<lparr>lock := Timeout\<rparr>) its = (Return 1, [])"
  "worker (help_start\<lparr>lock := Timeout\<rparr>) its = (Return 1, [])"
  "worker verified_start [waiting, incomplete] = (Uncaught KeyError, [Sleep 15])"
  "exit_code (fst (worker verified_start [waiting, incomplete])) = Some 1"
  "worker (verified_start\<lparr>can_unlink := False\<rparr>) [waiting, sentinel_seen]
     = (Uncaught OSError, [Sleep 15])"
  "fst (worker verified_start [waiting, waiting]) = Running"
proof -
  have i: "fetch_and_handle_task ''http://h'' (task interrupted) (shared (loop_start 0))
      = (Inr False, (shared (loop_start 0))\<lparr>alive := False\<rparr>,
         [Post ''http://h/api/failed_task'' (task_payload R1 3 ''Terminated by signal SIGINT.'')])"
    by (simp add: task_started [OF _ _ R1_simps(1)] interrupted_def example_env_def on_sigint_def
        upload_pgn_def loop_start_def initial_state_def)
  have ib: "iteration_body False ''http://h'' interrupted (loop_start 0)
      = ((loop_start 0)\<lparr>shared := (shared (loop_start 0))\<lparr>alive := False\<rparr>\<rparr>,
         [Post ''http://h/api/failed_task'' (task_payload R1 3 ''Terminated by signal SIGINT.'')],
         Leave)"
    by (simp add: iteration_body_def i;
        simp add: interrupted_def)
  have sb: "iteration_body False ''http://h'' sentinel_seen s
      = (s\<lparr>shared := (shared s)\<lparr>alive := False\<rparr>, fish_exit := True\<rparr>, [], Leave)" for s
    by (simp add: iteration_body_def sentinel_seen_def waiting_fails [unfolded waiting_def]
        waiting_def example_env_def fetch_and_handle_task_def)
  have nb: "iteration_body False ''http://h'' incomplete s
      = (s, [], Escape KeyError)" for s
    by (simp add: iteration_body_def incomplete_def waiting_def example_env_def
        fetch_and_handle_task_def)
  have vs: "reaches_remote_check (verified_start\<lparr>can_unlink := False\<rparr>)"
    "verify_remote_sri (hashes (verified_start\<lparr>can_unlink := False\<rparr>))
       (downloaded (verified_start\<lparr>can_unlink := False\<rparr>)) = Inr (Some True)"
    "fleet_of (verified_start\<lparr>can_unlink := False\<rparr>) = False"
    "remote_of (verified_start\<lparr>can_unlink := False\<rparr>) = ''http://h''"
    "started (verified_start\<lparr>can_unlink := False\<rparr>) = 0"
    using verified_start_simps
    by (simp_all add: reaches_remote_check_def fleet_of_def remote_of_def)
  show "worker fleet_start [waiting, sentinel_seen] = (Return 1, [Release_lock, Join_heartbeat])"
    by (simp add: worker_at_remote_check fleet_start_simps start_alive fleet_quits shutdown_def;
        simp add: loop_start_def)
  show "worker verified_start [interrupted, sentinel_seen]
     = (Return 1,
        [Post ''http://h/api/failed_task'' (task_payload R1 3 ''Terminated by signal SIGINT.''),
         Release_lock, Join_heartbeat])"
    by (simp add: worker_at_remote_check verified_start_simps start_alive ib shutdown_def;
        simp add: loop_start_def)
  show "worker verified_start [waiting, sentinel_seen]
     = (Return 0, [Sleep 15, Unlink ''fish.exit'', Release_lock, Join_heartbeat])"
    by (simp add: worker_at_remote_check verified_start_simps start_alive waiting_body sb shutdown_def;
        simp add: loop_start_def INITIAL_RETRY_TIME_def)
  show "worker (verified_start\<lparr>lock := Timeout\<rparr>) its = (Return 1, [])"
    by (simp add: worker_def)
  show "worker (help_start\<lparr>lock := Timeout\<rparr>) its = (Return 1, [])"
    by (simp add: worker_def)
  show k: "worker verified_start [waiting, incomplete] = (Uncaught KeyError, [Sleep 15])"
    by (simp add: worker_at_remote_check verified_start_simps start_alive waiting_body nb;
        simp add: loop_start_def INITIAL_RETRY_TIME_def)
  show "exit_code (fst (worker verified_start [waiting, incomplete])) = Some 1"
    by (simp add: k)
  show "worker (verified_start\<lparr>can_unlink := False\<rparr>) [waiting, sentinel_seen]
     = (Uncaught OSError, [Sleep 15])"
    by (simp add: worker_at_remote_check vs verified_start_simps start_alive waiting_body sb
        shutdown_def)
       (simp add: loop_start_def INITIAL_RETRY_TIME_def)
  show "fst (worker verified_start [waiting, waiting]) = Running"
    by (simp add: worker_at_remote_check verified_start_simps start_alive waiting_body)
qed

end
